theory Spec2Isabelle
  imports Complex_Main
begin

section \<open>Double-precision numbers\<close>

text \<open>
  The solver computes on C++ \<^verbatim>\<open>double\<close> values. A double is modelled as the real
  number it denotes, one of the two infinities, or NaN; the two zeros are identified.
  Every arithmetic operation computes the exact result and rounds it to the nearest
  binary64 value, ties to even (\<open>rnd\<close>): 53 significant bits, exponents from
  \<open>-1022\<close> (below which the spacing stays \<open>2^-1074\<close>) to \<open>1023\<close> (above which the
  result is an infinity).
\<close>

datatype dbl = Fin real | PInf | NInf | NaN

definition pow2 :: "int \<Rightarrow> real" where
  "pow2 e = (if 0 \<le> e then 2 ^ nat e else 1 / 2 ^ nat (- e))"

function expo_up :: "real \<Rightarrow> int \<Rightarrow> int" where
  "expo_up a e = (if 2 \<le> a \<and> e < 1024 then expo_up (a / 2) (e + 1) else e)"
  by pat_completeness auto
termination
  by (relation "measure (\<lambda>(a, e). nat (1024 - e))") auto

function expo_down :: "real \<Rightarrow> int \<Rightarrow> int" where
  "expo_down a e = (if a < 1 \<and> - 1022 < e then expo_down (2 * a) (e - 1) else e)"
  by pat_completeness auto
termination
  by (relation "measure (\<lambda>(a, e). nat (e + 1022))") auto

declare expo_up.simps [simp del] expo_down.simps [simp del]

definition expo :: "real \<Rightarrow> int" where
  "expo a = (if 1 \<le> a then expo_up a 0 else expo_down a 0)"

definition rhe :: "real \<Rightarrow> int" where
  "rhe y = (let f = \<lfloor>y\<rfloor>; d = y - of_int f in
     if d < 1 / 2 then f else if 1 / 2 < d then f + 1 else if even f then f else f + 1)"

definition rnd :: "real \<Rightarrow> dbl" where
  "rnd x = (if x = 0 then Fin 0 else
     let a = \<bar>x\<bar>; q = pow2 (expo a - 52); r = of_int (rhe (a / q)) * q in
     if pow2 1024 \<le> r then (if 0 < x then PInf else NInf)
     else Fin (if 0 < x then r else - r))"

instantiation dbl :: "{zero, uminus, plus, minus, times, inverse, abs, ord}"
begin

definition zero_dbl :: dbl where
  "zero_dbl = Fin 0"

fun uminus_dbl :: "dbl \<Rightarrow> dbl" where
  "uminus_dbl (Fin a) = Fin (- a)"
| "uminus_dbl PInf = NInf"
| "uminus_dbl NInf = PInf"
| "uminus_dbl NaN = NaN"

fun plus_dbl :: "dbl \<Rightarrow> dbl \<Rightarrow> dbl" where
  "plus_dbl (Fin a) (Fin b) = rnd (a + b)"
| "plus_dbl NaN y = NaN"
| "plus_dbl x NaN = NaN"
| "plus_dbl PInf NInf = NaN"
| "plus_dbl NInf PInf = NaN"
| "plus_dbl PInf y = PInf"
| "plus_dbl x PInf = PInf"
| "plus_dbl NInf y = NInf"
| "plus_dbl x NInf = NInf"

definition minus_dbl :: "dbl \<Rightarrow> dbl \<Rightarrow> dbl" where
  "minus_dbl x y = x + (- y)"

fun times_dbl :: "dbl \<Rightarrow> dbl \<Rightarrow> dbl" where
  "times_dbl (Fin a) (Fin b) = rnd (a * b)"
| "times_dbl NaN y = NaN"
| "times_dbl x NaN = NaN"
| "times_dbl (Fin a) PInf = (if a = 0 then NaN else if 0 < a then PInf else NInf)"
| "times_dbl (Fin a) NInf = (if a = 0 then NaN else if 0 < a then NInf else PInf)"
| "times_dbl PInf (Fin b) = (if b = 0 then NaN else if 0 < b then PInf else NInf)"
| "times_dbl NInf (Fin b) = (if b = 0 then NaN else if 0 < b then NInf else PInf)"
| "times_dbl PInf PInf = PInf"
| "times_dbl PInf NInf = NInf"
| "times_dbl NInf PInf = NInf"
| "times_dbl NInf NInf = PInf"

fun divide_dbl :: "dbl \<Rightarrow> dbl \<Rightarrow> dbl" where
  "divide_dbl (Fin a) (Fin b) =
     (if b = 0 then (if a = 0 then NaN else if 0 < a then PInf else NInf) else rnd (a / b))"
| "divide_dbl NaN y = NaN"
| "divide_dbl x NaN = NaN"
| "divide_dbl (Fin a) y = Fin 0"
| "divide_dbl PInf (Fin b) = (if 0 \<le> b then PInf else NInf)"
| "divide_dbl NInf (Fin b) = (if 0 \<le> b then NInf else PInf)"
| "divide_dbl x y = NaN"

definition inverse_dbl :: "dbl \<Rightarrow> dbl" where
  "inverse_dbl x = divide (Fin 1) x"

fun abs_dbl :: "dbl \<Rightarrow> dbl" where
  "abs_dbl (Fin a) = Fin \<bar>a\<bar>"
| "abs_dbl PInf = PInf"
| "abs_dbl NInf = PInf"
| "abs_dbl NaN = NaN"

fun less_dbl :: "dbl \<Rightarrow> dbl \<Rightarrow> bool" where
  "less_dbl (Fin a) (Fin b) = (a < b)"
| "less_dbl (Fin a) PInf = True"
| "less_dbl NInf (Fin b) = True"
| "less_dbl NInf PInf = True"
| "less_dbl x y = False"

fun less_eq_dbl :: "dbl \<Rightarrow> dbl \<Rightarrow> bool" where
  "less_eq_dbl (Fin a) (Fin b) = (a \<le> b)"
| "less_eq_dbl NaN y = False"
| "less_eq_dbl x NaN = False"
| "less_eq_dbl x PInf = True"
| "less_eq_dbl NInf y = True"
| "less_eq_dbl x y = False"

instance ..

end

text \<open>
  \<^verbatim>\<open>std::isnan\<close>, \<^verbatim>\<open>std::max\<close> (which returns its first argument unless it is less than
  the second), the conversion of an \<^verbatim>\<open>int\<close>, and a decimal literal of the source.
\<close>

fun isnan :: "dbl \<Rightarrow> bool" where
  "isnan NaN = True"
| "isnan x = False"

definition std_max :: "dbl \<Rightarrow> dbl \<Rightarrow> dbl" where
  "std_max a b = (if a < b then b else a)"

definition dbl_of_int :: "int \<Rightarrow> dbl" where
  "dbl_of_int k = rnd (of_int k)"

definition lit :: "real \<Rightarrow> dbl" where
  "lit r = rnd r"



section \<open>Grid, fields and obstacle\<close>

text \<open>The compile-time parameters of the domain.\<close>

definition Nxmax :: int where "Nxmax = 160"
definition Nymax :: int where "Nymax = 30"
definition IL :: int where "IL = 10"
definition H :: int where "H = 8"
definition T :: int where "T = 8"
definition h :: dbl where "h = lit 1"
definition V0 :: dbl where "V0 = lit 1"
definition tol :: dbl where "tol = lit (1 / 10 ^ 8)"

text \<open>
  The global variables of the program. The arrays \<^verbatim>\<open>u[Nxmax + 1][Nymax + 1]\<close> and
  \<^verbatim>\<open>w[Nxmax + 1][Nymax + 1]\<close> are functions of the index pair. The two \<^verbatim>\<open>static\<close> locals
  of \<^verbatim>\<open>relax_until_converge\<close> live as long as the program and are therefore fields of
  the state as well; \<open>exported\<close> lists the data files written so far.
\<close>

datatype export = Streamfunction dbl | Vorticity dbl | Velocity_field dbl

record state =
  u :: "int \<times> int \<Rightarrow> dbl"
  w :: "int \<times> int \<Rightarrow> dbl"
  omega :: dbl
  nu :: dbl
  R_target :: dbl
  R :: dbl
  last_w_error :: dbl
  stagnant_count :: int
  exported :: "export list"

definition set_u :: "int \<Rightarrow> int \<Rightarrow> dbl \<Rightarrow> state \<Rightarrow> state" where
  "set_u i j v s = s\<lparr>u := (u s)((i, j) := v)\<rparr>"

definition set_w :: "int \<Rightarrow> int \<Rightarrow> dbl \<Rightarrow> state \<Rightarrow> state" where
  "set_w i j v s = s\<lparr>w := (w s)((i, j) := v)\<rparr>"

definition is_inside_beam :: "int \<Rightarrow> int \<Rightarrow> bool" where
  "is_inside_beam i j = (IL \<le> i \<and> i \<le> IL + T \<and> 0 \<le> j \<and> j \<le> H)"

definition reset_fields :: "state \<Rightarrow> state" where
  "reset_fields = fold (\<lambda>i. fold (\<lambda>j s. set_w i j 0 (set_u i j 0 s)) [0..Nymax]) [0..Nxmax]"

section \<open>Domain-edge initialisation\<close>

text \<open>The five loops of \<^verbatim>\<open>borders\<close>, each as the fold of its body over its index range.\<close>

definition borders_fill :: "int \<Rightarrow> int \<Rightarrow> state \<Rightarrow> state" where
  "borders_fill i j s =
     (if is_inside_beam i j then set_w i j 0 (set_u i j 0 s)
      else set_u i j (dbl_of_int j * V0) (set_w i j 0 s))"

definition borders_surface :: "int \<Rightarrow> state \<Rightarrow> state" where
  "borders_surface i s =
     (if \<not> is_inside_beam i Nymax then
        (let s = set_u i Nymax (u s (i, Nymax - 1) + V0 * h) s
         in if 1 < Nymax then set_w i (Nymax - 1) 0 s else s)
      else s)"

definition borders_inlet :: "int \<Rightarrow> state \<Rightarrow> state" where
  "borders_inlet j s =
     (if \<not> is_inside_beam 0 j \<and> \<not> is_inside_beam 1 j
      then set_w 0 j 0 (set_u 1 j (u s (0, j)) s) else s)"

definition borders_centerline :: "int \<Rightarrow> state \<Rightarrow> state" where
  "borders_centerline i s =
     (if \<not> is_inside_beam i 0 then set_w i 0 0 (set_u i 0 0 s) else s)"

definition borders_outlet :: "int \<Rightarrow> state \<Rightarrow> state" where
  "borders_outlet j s =
     (if \<not> is_inside_beam Nxmax j \<and> \<not> is_inside_beam (Nxmax - 1) j then
        (let s = set_w Nxmax j (w s (Nxmax - 1, j)) s
         in set_u Nxmax j (u s (Nxmax - 1, j)) s)
      else s)"

definition borders :: "state \<Rightarrow> state" where
  "borders s =
     (let s = fold (\<lambda>i. fold (borders_fill i) [0..Nymax]) [0..Nxmax] s;
          s = fold borders_surface [0..Nxmax] s;
          s = fold borders_inlet [0..Nymax] s;
          s = fold borders_centerline [0..Nxmax] s;
          s = fold borders_outlet [1..Nymax - 1] s
      in s)"

section \<open>Obstacle-surface enforcement\<close>

text \<open>
  \<^verbatim>\<open>beam_boundaries\<close>, step by step. A loop \<^verbatim>\<open>for (i = a; i <= b && i <= c; ++i)\<close> runs
  over \<open>[a..min b c]\<close>.
\<close>

definition beam_interior :: "state \<Rightarrow> state" where
  "beam_interior =
     fold (\<lambda>i. fold (\<lambda>j s. set_w i j 0 (set_u i j 0 s)) [0..min H Nymax]) [IL..min (IL + T) Nxmax]"

definition beam_front :: "state \<Rightarrow> state" where
  "beam_front s =
     (if 0 < IL then
        fold (\<lambda>j s. set_w (IL - 1) j (- lit 2 * u s (IL - 2, j) / (h * h)) s)
          [1..min H (Nymax - 1)] s
      else s)"

definition beam_back :: "state \<Rightarrow> state" where
  "beam_back s =
     (if IL + T + 1 \<le> Nxmax then
        fold (\<lambda>j s. set_w (IL + T + 1) j (- lit 2 * u s (IL + T + 2, j) / (h * h)) s)
          [1..min H (Nymax - 1)] s
      else s)"

definition beam_top :: "state \<Rightarrow> state" where
  "beam_top s =
     (if H + 1 \<le> Nymax then
        fold (\<lambda>i s. set_w i (H + 1) (- lit 2 * u s (i, H + 2) / (h * h)) s)
          [IL..min (IL + T) Nxmax] s
      else s)"

definition beam_corner_left :: "state \<Rightarrow> state" where
  "beam_corner_left s =
     (if 0 < IL \<and> H + 1 \<le> Nymax then
        (let w_from_vertical = - lit 2 * u s (IL - 2, H + 1) / (h * h);
             w_from_horizontal = - lit 2 * u s (IL - 1, H + 2) / (h * h)
         in if lit 5 \<le> R_target s then
              (if \<bar>w_from_vertical\<bar> < \<bar>w_from_horizontal\<bar>
               then set_w (IL - 1) (H + 1)
                      (lit (7 / 10) * w_from_vertical + lit (3 / 10) * w_from_horizontal) s
               else set_w (IL - 1) (H + 1)
                      (lit (3 / 10) * w_from_vertical + lit (7 / 10) * w_from_horizontal) s)
            else set_w (IL - 1) (H + 1) (lit (1 / 2) * (w_from_vertical + w_from_horizontal)) s)
      else s)"

definition beam_corner_right :: "state \<Rightarrow> state" where
  "beam_corner_right s =
     (if IL + T + 1 \<le> Nxmax \<and> H + 1 \<le> Nymax then
        (let w_from_vertical = - lit 2 * u s (IL + T + 2, H + 1) / (h * h);
             w_from_horizontal = - lit 2 * u s (IL + T + 1, H + 2) / (h * h)
         in if lit 5 \<le> R_target s then
              (if \<bar>w_from_vertical\<bar> < \<bar>w_from_horizontal\<bar>
               then set_w (IL + T + 1) (H + 1)
                      (lit (7 / 10) * w_from_vertical + lit (3 / 10) * w_from_horizontal) s
               else set_w (IL + T + 1) (H + 1)
                      (lit (3 / 10) * w_from_vertical + lit (7 / 10) * w_from_horizontal) s)
            else set_w (IL + T + 1) (H + 1)
                   (lit (1 / 2) * (w_from_vertical + w_from_horizontal)) s)
      else s)"

text \<open>
  The smoothing filter. \<open>smooth_neighbours\<close> is the innermost pair of loops, which adds up
  the vorticity of the admissible neighbours of \<open>(ii, jj)\<close> and counts them.
\<close>

definition smooth_neighbours :: "int \<Rightarrow> int \<Rightarrow> state \<Rightarrow> dbl \<times> int" where
  "smooth_neighbours ii jj s =
     fold (\<lambda>ddi. fold (\<lambda>ddj (smooth_w, count).
        let iii = ii + ddi; jjj = jj + ddj in
        if 0 \<le> iii \<and> iii \<le> Nxmax \<and> 0 \<le> jjj \<and> jjj \<le> Nymax \<and>
           \<not> is_inside_beam iii jjj \<and> \<not> (ddi = 0 \<and> ddj = 0)
        then (smooth_w + w s (iii, jjj), count + 1) else (smooth_w, count)) [- 1..1])
       [- 1..1] (0, 0)"

definition smooth_node :: "int \<Rightarrow> int \<Rightarrow> state \<Rightarrow> state" where
  "smooth_node di dj s =
     (let ii = IL - 1 + di; jj = H + 1 + dj in
      if 0 < ii \<and> ii < Nxmax \<and> 0 < jj \<and> jj < Nymax \<and> \<not> is_inside_beam ii jj then
        (if lit 2 < \<bar>w s (ii, jj)\<bar> then
           (let (smooth_w, count) = smooth_neighbours ii jj s in
            if 0 < count then
              set_w ii jj (lit (6 / 10) * w s (ii, jj) + lit (4 / 10) * (smooth_w / dbl_of_int count)) s
            else s)
         else s)
      else s)"

definition beam_smoothing :: "state \<Rightarrow> state" where
  "beam_smoothing s =
     (if lit 5 \<le> R_target s then
        (if 1 < IL \<and> H + 2 \<le> Nymax then
           fold (\<lambda>di. fold (\<lambda>dj. smooth_node di dj) [- 1..1]) [- 1..1] s
         else s)
      else s)"

definition beam_boundaries :: "state \<Rightarrow> state" where
  "beam_boundaries s =
     (let s = beam_interior s;
          s = beam_front s;
          s = beam_back s;
          s = beam_top s;
          s = beam_corner_left s;
          s = beam_corner_right s;
          s = beam_smoothing s
      in s)"

text \<open>The state after the first six steps of the enforcement.\<close>

definition beam_walls :: "state \<Rightarrow> state" where
  "beam_walls s =
     beam_corner_right (beam_corner_left (beam_top (beam_back (beam_front (beam_interior s)))))"

section \<open>Relaxation sweeps\<close>

definition relax_stream_function_node :: "int \<Rightarrow> int \<Rightarrow> state \<Rightarrow> state" where
  "relax_stream_function_node i j s =
     (if is_inside_beam i j then s else
        (let old_u = u s (i, j);
             new_u = lit (1 / 4) * (u s (i + 1, j) + u s (i - 1, j) + u s (i, j + 1) + u s (i, j - 1)
                      + h * h * w s (i, j));
             r1 = omega s * (new_u - old_u)
         in set_u i j (u s (i, j) + r1) s))"

definition relax_stream_function :: "state \<Rightarrow> state" where
  "relax_stream_function =
     fold (\<lambda>i. fold (\<lambda>j. relax_stream_function_node i j) [1..Nymax - 1]) [1..Nxmax - 1]"

definition stability_factor :: "dbl \<Rightarrow> dbl" where
  "stability_factor re =
     (if lit 5 \<le> re then lit (4 / 10)
      else if lit 2 < re then lit (7 / 10)
      else if lit (3 / 2) < re then lit (8 / 10)
      else lit 1)"

definition relax_vorticity_node :: "int \<Rightarrow> int \<Rightarrow> state \<Rightarrow> state" where
  "relax_vorticity_node i j s =
     (if is_inside_beam i j then s else
        (let old_w = w s (i, j) in
         if i = 1 \<or> i = Nxmax - 1 \<or> j = 1 \<or> j = Nymax - 1 then
           (let a1 = w s (i + 1, j) + w s (i - 1, j) + w s (i, j + 1) + w s (i, j - 1);
                new_w = lit (1 / 4) * a1;
                r2 = omega s * (new_w - old_w)
            in set_w i j (w s (i, j) + r2) s)
         else
           (let a1 = w s (i + 1, j) + w s (i - 1, j) + w s (i, j + 1) + w s (i, j - 1);
                a2 = (u s (i, j + 1) - u s (i, j - 1)) * (w s (i + 1, j) - w s (i - 1, j));
                a3 = (u s (i + 1, j) - u s (i - 1, j)) * (w s (i, j + 1) - w s (i, j - 1));
                new_w = lit (1 / 4) *
                  (a1 - stability_factor (R_target s) * (R s / lit 4) * (a2 - a3));
                r2 = omega s * (new_w - old_w)
            in set_w i j (w s (i, j) + r2) s)))"

definition relax_vorticity :: "state \<Rightarrow> state" where
  "relax_vorticity =
     fold (\<lambda>i. fold (\<lambda>j. relax_vorticity_node i j) [1..Nymax - 1]) [1..Nxmax - 1]"

section \<open>Reynolds configuration\<close>

definition configure_reynolds :: "dbl \<Rightarrow> state \<Rightarrow> state" where
  "configure_reynolds reynolds_target s =
     (let s = s\<lparr>R_target := reynolds_target\<rparr>;
          s = s\<lparr>nu := V0 * h / R_target s\<rparr>
      in if R_target s \<le> lit (5 / 10) then s\<lparr>omega := lit (1 / 10)\<rparr>
         else if R_target s \<le> lit 1 then s\<lparr>omega := lit (8 / 100)\<rparr>
         else if R_target s \<le> lit 2 then s\<lparr>omega := lit (4 / 100)\<rparr>
         else if R_target s \<le> lit 5 then s\<lparr>omega := lit (12 / 1000)\<rparr>
         else if R_target s \<le> lit 10 then s\<lparr>omega := lit (8 / 1000)\<rparr>
         else s\<lparr>omega := lit (5 / 1000)\<rparr>)"

section \<open>Convergence loop\<close>

text \<open>
  The change norms: the loop nest that follows the sweeps, with the running maxima as its
  accumulator. (The OpenMP \<^verbatim>\<open>max\<close> reduction is taken in index order.)
\<close>

definition diff_node ::
    "(int \<times> int \<Rightarrow> dbl) \<Rightarrow> (int \<times> int \<Rightarrow> dbl) \<Rightarrow> state \<Rightarrow> int \<Rightarrow> int \<Rightarrow> dbl \<times> dbl \<Rightarrow> dbl \<times> dbl" where
  "diff_node u_old w_old s i j = (\<lambda>(max_diff_u, max_diff_w).
     if is_inside_beam i j then (max_diff_u, max_diff_w)
     else (std_max max_diff_u \<bar>u s (i, j) - u_old (i, j)\<bar>,
           std_max max_diff_w \<bar>w s (i, j) - w_old (i, j)\<bar>))"

definition max_diffs :: "(int \<times> int \<Rightarrow> dbl) \<Rightarrow> (int \<times> int \<Rightarrow> dbl) \<Rightarrow> state \<Rightarrow> dbl \<times> dbl" where
  "max_diffs u_old w_old s =
     fold (\<lambda>i. fold (\<lambda>j. diff_node u_old w_old s i j) [1..Nymax - 1]) [1..Nxmax - 1] (0, 0)"

text \<open>
  One pass through the body of the \<^verbatim>\<open>do\<close> loop up to the change norms. The local arrays
  \<^verbatim>\<open>u_old\<close> and \<^verbatim>\<open>w_old\<close> are returned with the norms.
\<close>

definition iteration ::
    "state \<Rightarrow> state \<times> (int \<times> int \<Rightarrow> dbl) \<times> (int \<times> int \<Rightarrow> dbl) \<times> dbl \<times> dbl" where
  "iteration s =
     (let s = beam_boundaries s;
          u_old = u s;
          w_old = w s;
          s = relax_stream_function s;
          s = relax_vorticity s;
          s = beam_boundaries s;
          (max_diff_u, max_diff_w) = max_diffs u_old w_old s
      in (s, u_old, w_old, max_diff_u, max_diff_w))"

definition effective_tol :: "dbl \<Rightarrow> dbl" where
  "effective_tol re =
     (if lit 5 \<le> re then tol * dbl_of_int 200
      else if lit 2 < re then tol * dbl_of_int 50
      else if lit (3 / 2) < re then tol * dbl_of_int 10
      else tol)"

text \<open>
  The partial-convergence block with its two \<^verbatim>\<open>static\<close> locals; the boolean tells whether
  the loop is left by \<^verbatim>\<open>break\<close>.
\<close>

definition partial_convergence :: "int \<Rightarrow> dbl \<Rightarrow> dbl \<Rightarrow> state \<Rightarrow> bool \<times> state" where
  "partial_convergence iter max_diff_u max_diff_w s =
     (if max_diff_u < effective_tol (R_target s) \<and> 50000 < iter then
        (let s = (if \<bar>max_diff_w - last_w_error s\<bar> < lit (1 / 10 ^ 15)
                  then s\<lparr>stagnant_count := stagnant_count s + 1\<rparr>
                  else s\<lparr>stagnant_count := 0\<rparr>);
             s = s\<lparr>last_w_error := max_diff_w\<rparr>;
             patience = (if lit 5 \<le> R_target s then 8000 else 3000)
         in (patience < stagnant_count s, s))
      else (False, s))"

text \<open>The code after the loop: the verdict, with the number of iterations made.\<close>

definition after_loop :: "int \<Rightarrow> int \<Rightarrow> dbl \<Rightarrow> state \<Rightarrow> bool \<times> int \<times> state" where
  "after_loop max_iterations iter max_diff_u s =
     (if max_iterations \<le> iter then
        (let acceptance_threshold =
               (if lit 5 \<le> R_target s then effective_tol (R_target s) * dbl_of_int 20000
                else effective_tol (R_target s) * dbl_of_int 1000)
         in (max_diff_u < acceptance_threshold, iter, s))
      else (True, iter, s))"

function relax_loop :: "int \<Rightarrow> int \<Rightarrow> state \<Rightarrow> bool \<times> int \<times> state" where
  "relax_loop max_iterations iter s =
     (let (s, u_old, w_old, max_diff_u, max_diff_w) = iteration s;
          iter = iter + 1;
          divergence_threshold = (if lit 5 \<le> R_target s then lit 50 else lit 1000)
      in if isnan max_diff_u \<or> isnan max_diff_w \<or>
            divergence_threshold < max_diff_u \<or> divergence_threshold < max_diff_w
         then (False, iter, s)
         else if max_diff_u < effective_tol (R_target s) \<and> max_diff_w < effective_tol (R_target s)
         then after_loop max_iterations iter max_diff_u s
         else (let (break, s) = partial_convergence iter max_diff_u max_diff_w s in
               if break then after_loop max_iterations iter max_diff_u s
               else if iter < max_iterations then relax_loop max_iterations iter s
               else after_loop max_iterations iter max_diff_u s))"
  by pat_completeness auto
termination
  by (relation "measure (\<lambda>(max_iterations, iter, s). nat (max_iterations - iter))") auto

definition relax_until_converge :: "int \<Rightarrow> state \<Rightarrow> bool \<times> int \<times> state" where
  "relax_until_converge max_iterations s =
     (let s = s\<lparr>R := V0 * h / nu s\<rparr> in relax_loop max_iterations 0 s)"

section \<open>Run harness\<close>

definition normalize :: "state \<Rightarrow> state" where
  "normalize =
     fold (\<lambda>i. fold (\<lambda>j s. set_u i j (u s (i, j) / (V0 * h)) s) [0..Nymax]) [0..Nxmax]"

text \<open>The exporters write one data file each; the file is recorded, not its contents.\<close>

definition export_streamfunction :: "dbl \<Rightarrow> state \<Rightarrow> state" where
  "export_streamfunction reynolds s = s\<lparr>exported := exported s @ [Streamfunction reynolds]\<rparr>"

definition export_vorticity :: "dbl \<Rightarrow> state \<Rightarrow> state" where
  "export_vorticity reynolds s = s\<lparr>exported := exported s @ [Vorticity reynolds]\<rparr>"

definition export_velocity_field :: "dbl \<Rightarrow> state \<Rightarrow> state" where
  "export_velocity_field reynolds s = s\<lparr>exported := exported s @ [Velocity_field reynolds]\<rparr>"

definition run_simulation :: "dbl \<Rightarrow> state \<Rightarrow> bool \<times> state" where
  "run_simulation reynolds s =
     (let s = reset_fields s;
          s = configure_reynolds reynolds s;
          s = borders s;
          (converged, iter, s) = relax_until_converge 350000 s
      in if \<not> converged then (False, s)
         else (let s = normalize s;
                   s = export_streamfunction reynolds s;
                   s = export_vorticity reynolds s;
                   s = export_velocity_field reynolds s
               in (True, s)))"

definition reynolds_values :: "dbl list" where
  "reynolds_values = [lit (5 / 10), lit 1, lit 2, lit 5]"

text \<open>The loop of \<^verbatim>\<open>main\<close> over the target Reynolds numbers, counting the successful runs.\<close>

definition sweep :: "dbl list \<Rightarrow> int \<times> state \<Rightarrow> int \<times> state" where
  "sweep res = fold (\<lambda>re (successful_simulations, s).
     let (ok, s) = run_simulation re s in
     if ok then (successful_simulations + 1, s) else (successful_simulations, s)) res"

text \<open>The state at program start: zero-initialised globals, the statics at their initialisers.\<close>

definition init_state :: state where
  "init_state = \<lparr>u = (\<lambda>n. 0), w = (\<lambda>n. 0), omega = 0, nu = 0, R_target = 0, R = 0,
     last_w_error = - lit 1, stagnant_count = 0, exported = []\<rparr>"

definition main_program :: "int \<times> state" where
  "main_program = sweep reynolds_values (0, init_state)"

section \<open>States and notions used in the statements\<close>

text \<open>The value the corner step assigns at the top-left and at the top-right corner node.\<close>

definition corner_left_value :: "state \<Rightarrow> dbl" where
  "corner_left_value s =
     (let w_from_vertical = - lit 2 * u s (IL - 2, H + 1) / (h * h);
          w_from_horizontal = - lit 2 * u s (IL - 1, H + 2) / (h * h)
      in if lit 5 \<le> R_target s then
           (if \<bar>w_from_vertical\<bar> < \<bar>w_from_horizontal\<bar>
            then lit (7 / 10) * w_from_vertical + lit (3 / 10) * w_from_horizontal
            else lit (3 / 10) * w_from_vertical + lit (7 / 10) * w_from_horizontal)
         else lit (1 / 2) * (w_from_vertical + w_from_horizontal))"

definition corner_right_value :: "state \<Rightarrow> dbl" where
  "corner_right_value s =
     (let w_from_vertical = - lit 2 * u s (IL + T + 2, H + 1) / (h * h);
          w_from_horizontal = - lit 2 * u s (IL + T + 1, H + 2) / (h * h)
      in if lit 5 \<le> R_target s then
           (if \<bar>w_from_vertical\<bar> < \<bar>w_from_horizontal\<bar>
            then lit (7 / 10) * w_from_vertical + lit (3 / 10) * w_from_horizontal
            else lit (3 / 10) * w_from_vertical + lit (7 / 10) * w_from_horizontal)
         else lit (1 / 2) * (w_from_vertical + w_from_horizontal))"

text \<open>A state that every step before the smoothing leaves as it is.\<close>

definition walls_fixed :: "state \<Rightarrow> bool" where
  "walls_fixed t \<longleftrightarrow>
     (\<forall>n. is_inside_beam (fst n) (snd n) \<longrightarrow> u t n = 0 \<and> w t n = 0) \<and>
     (\<forall>j. 1 \<le> j \<and> j \<le> H \<longrightarrow> w t (IL - 1, j) = - lit 2 * u t (IL - 2, j) / (h * h)) \<and>
     (\<forall>j. 1 \<le> j \<and> j \<le> H \<longrightarrow> w t (IL + T + 1, j) = - lit 2 * u t (IL + T + 2, j) / (h * h)) \<and>
     (\<forall>i. IL \<le> i \<and> i \<le> IL + T \<longrightarrow> w t (i, H + 1) = - lit 2 * u t (i, H + 2) / (h * h)) \<and>
     w t (IL - 1, H + 1) = corner_left_value t \<and>
     w t (IL + T + 1, H + 1) = corner_right_value t"

text \<open>Test states: constant fields, a single vorticity spike beside the top-left corner at
  Reynolds number 5, and the shear profile without obstacle.\<close>

definition sevens :: state where
  "sevens = init_state\<lparr>u := (\<lambda>n. Fin 7), w := (\<lambda>n. Fin 7)\<rparr>"

definition spike :: "real \<Rightarrow> state" where
  "spike x = init_state\<lparr>w := (\<lambda>n. 0)((8, 8) := Fin x), R_target := lit 5\<rparr>"

definition ramp :: "dbl \<Rightarrow> state" where
  "ramp re = init_state\<lparr>u := (\<lambda>n. Fin (of_int (snd n))), R_target := re\<rparr>"

text \<open>The uniform shear profile on the grid, with vorticity zero.\<close>

definition shear :: "state \<Rightarrow> bool" where
  "shear s \<longleftrightarrow> (\<forall>i j. 0 \<le> i \<and> i \<le> Nxmax \<and> 0 \<le> j \<and> j \<le> Nymax \<longrightarrow>
     w s (i, j) = 0 \<and> u s (i, j) = (if is_inside_beam i j then 0 else Fin (of_int j)))"

text \<open>The value the smoothing filter assigns to a node \<open>(ii, jj)\<close> that it smooths.\<close>

definition smoothed_value :: "int \<Rightarrow> int \<Rightarrow> state \<Rightarrow> dbl" where
  "smoothed_value ii jj s =
     lit (6 / 10) * w s (ii, jj)
       + lit (4 / 10) * (fst (smooth_neighbours ii jj s) / dbl_of_int (snd (smooth_neighbours ii jj s)))"

text \<open>The state in which \<^verbatim>\<open>run_simulation\<close> enters the convergence loop on a fresh program.\<close>

definition first_state :: "dbl \<Rightarrow> state" where
  "first_state re = borders (configure_reynolds re (reset_fields init_state))"

text \<open>Two states that differ in the fields \<open>u\<close> and \<open>w\<close> at most.\<close>

definition same_scalars :: "state \<Rightarrow> state \<Rightarrow> bool" where
  "same_scalars s t \<longleftrightarrow> omega t = omega s \<and> nu t = nu s \<and> R_target t = R_target s \<and> R t = R s \<and>
     last_w_error t = last_w_error s \<and> stagnant_count t = stagnant_count s \<and>
     exported t = exported s"



text \<open>
  The running maximum of the change norm loop for one field, and the nodes the loop nest
  visits, in its order.
\<close>

definition run_max :: "(int \<times> int \<Rightarrow> dbl) \<Rightarrow> (int \<times> int) list \<Rightarrow> dbl \<Rightarrow> dbl" where
  "run_max d ns m =
     fold (\<lambda>n m. if is_inside_beam (fst n) (snd n) then m else std_max m (d n)) ns m"

definition interior_nodes :: "(int \<times> int) list" where
  "interior_nodes = List.product [1..Nxmax - 1] [1..Nymax - 1]"

text \<open>
  The pass as the specification words it, with the snapshot taken first; a state at rest
  at Reynolds number 0.5; and that state with one unit of vorticity on the front wall.
\<close>

definition spec_iteration ::
    "state \<Rightarrow> state \<times> (int \<times> int \<Rightarrow> dbl) \<times> (int \<times> int \<Rightarrow> dbl) \<times> dbl \<times> dbl" where
  "spec_iteration s =
     (let u_old = u s;
          w_old = w s;
          s = beam_boundaries s;
          s = relax_stream_function s;
          s = relax_vorticity s;
          s = beam_boundaries s;
          (max_diff_u, max_diff_w) = max_diffs u_old w_old s
      in (s, u_old, w_old, max_diff_u, max_diff_w))"

definition still :: state where
  "still = configure_reynolds (lit (1 / 2)) init_state"

definition stirred :: state where
  "stirred = still\<lparr>w := (\<lambda>n. 0)((9, 1) := Fin 1)\<rparr>"

text \<open>
  One pass through the body of the \<^verbatim>\<open>do\<close> loop: the value the function returns if the loop
  ends with this pass, or else the counter and the state with which the next pass begins.
\<close>

definition pass :: "int \<Rightarrow> int \<Rightarrow> state \<Rightarrow> (bool \<times> int \<times> state) + (int \<times> state)" where
  "pass max_iterations iter s =
     (let (s, u_old, w_old, max_diff_u, max_diff_w) = iteration s;
          iter = iter + 1;
          divergence_threshold = (if lit 5 \<le> R_target s then lit 50 else lit 1000)
      in if isnan max_diff_u \<or> isnan max_diff_w \<or>
            divergence_threshold < max_diff_u \<or> divergence_threshold < max_diff_w
         then Inl (False, iter, s)
         else if max_diff_u < effective_tol (R_target s) \<and> max_diff_w < effective_tol (R_target s)
         then Inl (after_loop max_iterations iter max_diff_u s)
         else (let (break, s) = partial_convergence iter max_diff_u max_diff_w s in
               if break then Inl (after_loop max_iterations iter max_diff_u s)
               else if iter < max_iterations then Inr (iter, s)
               else Inl (after_loop max_iterations iter max_diff_u s)))"


text \<open>Two states with the same configuration and the same files written.\<close>

definition same_config :: "state \<Rightarrow> state \<Rightarrow> bool" where
  "same_config s t \<longleftrightarrow> omega t = omega s \<and> nu t = nu s \<and> R_target t = R_target s \<and> R t = R s \<and>
     exported t = exported s"



text \<open>The relaxation factor that \<^verbatim>\<open>configure_reynolds\<close> selects.\<close>

definition omega_of :: "dbl \<Rightarrow> dbl" where
  "omega_of re =
     (if re \<le> lit (5 / 10) then lit (1 / 10)
      else if re \<le> lit 1 then lit (8 / 100)
      else if re \<le> lit 2 then lit (4 / 100)
      else if re \<le> lit 5 then lit (12 / 1000)
      else if re \<le> lit 10 then lit (8 / 1000)
      else lit (5 / 1000))"

section \<open>Properties of the arithmetic\<close>

subsection \<open>Values that need no rounding\<close>

lemma rnd_0 [simp]: "rnd 0 = Fin 0"
  by (simp add: rnd_def)

lemma expo_up_lower:
  "1 \<le> a \<Longrightarrow> e \<le> expo_up a e \<and> 2 ^ nat (expo_up a e - e) \<le> a"
proof (induction a e rule: expo_up.induct)
  case (1 a e)
  show ?case
  proof (cases "2 \<le> a \<and> e < 1024")
    case True
    then have "1 \<le> a / 2" by simp
    with "1.IH" True have ih: "e + 1 \<le> expo_up (a / 2) (e + 1)"
      "2 ^ nat (expo_up (a / 2) (e + 1) - (e + 1)) \<le> a / 2" by simp_all
    have eq: "expo_up a e = expo_up (a / 2) (e + 1)"
      using True by (subst expo_up.simps) simp
    have "nat (expo_up (a / 2) (e + 1) - e) = Suc (nat (expo_up (a / 2) (e + 1) - (e + 1)))"
      using ih(1) by linarith
    with ih show ?thesis by (simp add: eq)
  next
    case False
    then have "expo_up a e = e" by (subst expo_up.simps) auto
    with "1.prems" show ?thesis by simp
  qed
qed

lemma rhe_of_int [simp]: "rhe (of_int n) = n"
  by (simp add: rhe_def)

lemma rnd_pos_int:
  assumes "1 \<le> k" "k < 2 ^ 53"
  shows "rnd (of_int k) = Fin (of_int k)"
proof -
  define e where "e = expo_up (of_int k) 0"
  have k1: "(1::real) \<le> of_int k" using assms by simp
  from expo_up_lower [OF k1, of 0] have e0: "0 \<le> e" and lo: "(2::real) ^ nat e \<le> of_int k"
    by (simp_all add: e_def)
  have lt: "(2::real) ^ nat e < 2 ^ 53"
  proof -
    have "real_of_int k < 2 ^ 53" using assms(2) by (metis of_int_less_numeral_power_cancel_iff)
    with lo show ?thesis by linarith
  qed
  have "nat e < 53" by (rule power_less_imp_less_exp [OF _ lt]) simp
  with e0 have e52: "e \<le> 52" by linarith
  have ex: "expo \<bar>real_of_int k\<bar> = e"
    using k1 by (simp add: expo_def e_def)
  define n where "n = nat (52 - e)"
  have q: "pow2 (e - 52) = 1 / 2 ^ n"
    using e52 by (cases "e = 52") (simp_all add: pow2_def n_def)
  have quo: "\<bar>real_of_int k\<bar> / pow2 (e - 52) = of_int (k * 2 ^ n)"
    using k1 by (simp add: q)
  have r: "of_int (rhe (\<bar>real_of_int k\<bar> / pow2 (e - 52))) * pow2 (e - 52) = real_of_int k"
    unfolding quo rhe_of_int by (simp add: q)
  have small: "real_of_int k < pow2 1024"
  proof -
    have "real_of_int k < 2 ^ 53" using assms(2) by (metis of_int_less_numeral_power_cancel_iff)
    also have "\<dots> \<le> (2::real) ^ 1024" by (rule power_increasing) simp_all
    finally show ?thesis by (simp add: pow2_def)
  qed
  show ?thesis
    using k1 small unfolding rnd_def ex Let_def r by simp
qed

lemma rnd_neg: "rnd (- x) = - rnd x"
  by (simp add: rnd_def Let_def)

lemma rnd_int: "\<bar>k\<bar> < 2 ^ 53 \<Longrightarrow> rnd (of_int k) = Fin (of_int k)"
proof -
  assume b: "\<bar>k\<bar> < 2 ^ 53"
  consider "k = 0" | "1 \<le> k" | "1 \<le> - k" by linarith
  then show ?thesis
  proof cases
    case 1
    then show ?thesis by simp
  next
    case 2
    with b show ?thesis by (simp add: rnd_pos_int)
  next
    case 3
    with b have "rnd (of_int (- k)) = Fin (of_int (- k))" by (intro rnd_pos_int) simp_all
    then have "- rnd (of_int k) = Fin (- of_int k)" by (simp add: rnd_neg)
    then show ?thesis by (cases "rnd (of_int k)") simp_all
  qed
qed


lemma rnd_numeral [simp]: "(numeral k :: int) < 2 ^ 53 \<Longrightarrow> rnd (numeral k) = Fin (numeral k)"
  using rnd_int [of "numeral k"] by simp

lemma lit_int: "\<bar>k\<bar> < 2 ^ 53 \<Longrightarrow> lit (of_int k) = Fin (of_int k)"
  by (simp add: lit_def rnd_int)

lemma lit_0 [simp]: "lit 0 = 0"
  by (simp add: lit_def zero_dbl_def)

lemma lit_1 [simp]: "lit 1 = Fin 1"
  using lit_int [of 1] by simp

lemma rnd_1 [simp]: "rnd 1 = Fin 1"
  using rnd_int [of 1] by simp

subsection \<open>Evaluating the rounding\<close>

lemma rnd_eval:
  "rnd x = (if x = 0 then Fin 0 else
     if pow2 1024 \<le> of_int (rhe (\<bar>x\<bar> / pow2 (expo \<bar>x\<bar> - 52))) * pow2 (expo \<bar>x\<bar> - 52)
     then (if 0 < x then PInf else NInf)
     else Fin (if 0 < x then of_int (rhe (\<bar>x\<bar> / pow2 (expo \<bar>x\<bar> - 52))) * pow2 (expo \<bar>x\<bar> - 52)
               else - (of_int (rhe (\<bar>x\<bar> / pow2 (expo \<bar>x\<bar> - 52))) * pow2 (expo \<bar>x\<bar> - 52))))"
  by (simp add: rnd_def Let_def)

lemma rhe_eval:
  "rhe y = (if y - of_int \<lfloor>y\<rfloor> < 1 / 2 then \<lfloor>y\<rfloor>
            else if 1 / 2 < y - of_int \<lfloor>y\<rfloor> then \<lfloor>y\<rfloor> + 1
            else if even \<lfloor>y\<rfloor> then \<lfloor>y\<rfloor> else \<lfloor>y\<rfloor> + 1)"
  by (simp add: rhe_def Let_def)

lemmas b64 = rnd_eval rhe_eval expo_def expo_up.simps expo_down.simps pow2_def lit_def
  dbl_of_int_def zero_dbl_def minus_dbl_def


lemma lit_values:
  "lit 5 = Fin 5" "lit 2 = Fin 2" "lit (3 / 2) = Fin (3 / 2)" "lit (4 / 10) = Fin (3602879701896397 / 2 ^ 53)"
  "lit (7 / 10) = Fin (3152519739159347 / 2 ^ 52)" "lit (8 / 10) = Fin (3602879701896397 / 2 ^ 52)"
  "lit (2 / 5) = Fin (3602879701896397 / 2 ^ 53)" "lit (4 / 5) = Fin (3602879701896397 / 2 ^ 52)"
  by (simp_all add: b64)


lemma omega_values:
  "lit (1 / 2) = Fin (1 / 2)" "lit 10 = Fin 10"
  "lit (1 / 10) = Fin (3602879701896397 / 2 ^ 55)"
  "lit (8 / 100) = Fin (5764607523034235 / 2 ^ 56)" "lit (2 / 25) = Fin (5764607523034235 / 2 ^ 56)"
  "lit (4 / 100) = Fin (5764607523034235 / 2 ^ 57)" "lit (1 / 25) = Fin (5764607523034235 / 2 ^ 57)"
  "lit (12 / 1000) = Fin (3458764513820541 / 2 ^ 58)" "lit (3 / 250) = Fin (3458764513820541 / 2 ^ 58)"
  "lit (8 / 1000) = Fin (1152921504606847 / 2 ^ 57)" "lit (1 / 125) = Fin (1152921504606847 / 2 ^ 57)"
  "lit (5 / 1000) = Fin (5764607523034235 / 2 ^ 60)" "lit (1 / 200) = Fin (5764607523034235 / 2 ^ 60)"
  by (simp_all add: b64)

section \<open>Properties of the initialisation\<close>

lemma set_u_simps [simp]:
  "u (set_u i j v s) = (u s)((i, j) := v)"
  "w (set_u i j v s) = w s"
  "omega (set_u i j v s) = omega s"
  "nu (set_u i j v s) = nu s"
  "R_target (set_u i j v s) = R_target s"
  "R (set_u i j v s) = R s"
  "last_w_error (set_u i j v s) = last_w_error s"
  "stagnant_count (set_u i j v s) = stagnant_count s"
  "exported (set_u i j v s) = exported s"
  by (simp_all add: set_u_def)

lemma set_w_simps [simp]:
  "u (set_w i j v s) = u s"
  "w (set_w i j v s) = (w s)((i, j) := v)"
  "omega (set_w i j v s) = omega s"
  "nu (set_w i j v s) = nu s"
  "R_target (set_w i j v s) = R_target s"
  "R (set_w i j v s) = R s"
  "last_w_error (set_w i j v s) = last_w_error s"
  "stagnant_count (set_w i j v s) = stagnant_count s"
  "exported (set_w i j v s) = exported s"
  by (simp_all add: set_w_def)

lemma inside_iff: "is_inside_beam i j \<longleftrightarrow> 10 \<le> i \<and> i \<le> 18 \<and> 0 \<le> j \<and> j \<le> 8"
  by (simp add: is_inside_beam_def IL_def T_def H_def)

lemma fold_invariant:
  "P s \<Longrightarrow> (\<And>x t. x \<in> set xs \<Longrightarrow> P t \<Longrightarrow> P (f x t)) \<Longrightarrow> P (fold f xs s)"
  by (induction xs arbitrary: s) simp_all

lemma shear_value: "0 \<le> j \<Longrightarrow> j \<le> Nymax \<Longrightarrow> dbl_of_int j * V0 = Fin (of_int j)"
proof -
  assume "0 \<le> j" "j \<le> Nymax"
  then have b: "\<bar>j\<bar> < 2 ^ 53" by (simp add: Nymax_def)
  then have "rnd (of_int j) = Fin (of_int j)" by (rule rnd_int)
  then show ?thesis by (simp add: dbl_of_int_def V0_def)
qed

lemma fill_row:
  "u (fold (borders_fill i) js s) (a, b) =
     (if a = i \<and> b \<in> set js then (if is_inside_beam a b then 0 else dbl_of_int b * V0)
      else u s (a, b)) \<and>
   w (fold (borders_fill i) js s) (a, b) = (if a = i \<and> b \<in> set js then 0 else w s (a, b))"
  by (induction js arbitrary: s) (auto simp: borders_fill_def)

lemma fill_grid:
  "u (fold (\<lambda>i. fold (borders_fill i) js) is s) (a, b) =
     (if a \<in> set is \<and> b \<in> set js then (if is_inside_beam a b then 0 else dbl_of_int b * V0)
      else u s (a, b)) \<and>
   w (fold (\<lambda>i. fold (borders_fill i) js) is s) (a, b) =
     (if a \<in> set is \<and> b \<in> set js then 0 else w s (a, b))"
  by (induction "is" arbitrary: s) (auto simp: fill_row)

lemma shear_fill: "shear (fold (\<lambda>i. fold (borders_fill i) [0..Nymax]) [0..Nxmax] s)"
  by (simp add: shear_def fill_grid shear_value)

lemma V0_h [simp]: "V0 * h = Fin 1"
  by (simp add: V0_def h_def)

lemma top_value: "Fin 29 + V0 * h = Fin 30"
  by simp

lemma shear_surface: "shear s \<Longrightarrow> 0 \<le> i \<Longrightarrow> i \<le> Nxmax \<Longrightarrow> shear (borders_surface i s)"
  unfolding shear_def borders_surface_def
  by (auto simp: inside_iff Nymax_def Nxmax_def top_value Let_def)

lemma shear_inlet: "shear s \<Longrightarrow> 0 \<le> j \<Longrightarrow> j \<le> Nymax \<Longrightarrow> shear (borders_inlet j s)"
  unfolding shear_def borders_inlet_def
  by (auto simp: inside_iff Nymax_def Nxmax_def)

lemma shear_centerline: "shear s \<Longrightarrow> 0 \<le> i \<Longrightarrow> i \<le> Nxmax \<Longrightarrow> shear (borders_centerline i s)"
  unfolding shear_def borders_centerline_def
  by (auto simp: inside_iff Nymax_def Nxmax_def zero_dbl_def)

lemma shear_outlet: "shear s \<Longrightarrow> 1 \<le> j \<Longrightarrow> j \<le> Nymax - 1 \<Longrightarrow> shear (borders_outlet j s)"
  unfolding shear_def borders_outlet_def
  by (auto simp: inside_iff Nymax_def Nxmax_def Let_def)

lemma shear_fold:
  "shear s \<Longrightarrow> (\<And>x t. x \<in> set xs \<Longrightarrow> shear t \<Longrightarrow> shear (f x t)) \<Longrightarrow> shear (fold f xs s)"
  by (rule fold_invariant)

lemma shear_borders: "shear (borders s)"
  unfolding borders_def Let_def
  by (intro shear_fold shear_fill shear_surface shear_inlet shear_centerline shear_outlet)
     simp_all

text \<open>
  C10: after \<^verbatim>\<open>reset_fields\<close> and \<^verbatim>\<open>borders\<close> the vorticity is zero at every grid node, the
  streamfunction is zero at every node of the obstacle and \<open>j * V0\<close> (the double \<open>j\<close>) at
  every other node, so that the top row, the inlet column and the outlet column carry the
  values their extrapolation and copy statements assign.
\<close>

theorem borders_shear_profile:
  assumes "0 \<le> i" "i \<le> Nxmax" "0 \<le> j" "j \<le> Nymax"
  shows "w (borders (reset_fields s)) (i, j) = 0 \<and>
    u (borders (reset_fields s)) (i, j) =
      (if is_inside_beam i j then 0 else dbl_of_int j * V0) \<and>
    dbl_of_int j * V0 = Fin (of_int j) \<and>
    u (borders (reset_fields s)) (i, Nymax) = u (borders (reset_fields s)) (i, Nymax - 1) + V0 * h \<and>
    u (borders (reset_fields s)) (1, j) = u (borders (reset_fields s)) (0, j) \<and>
    u (borders (reset_fields s)) (Nxmax, j) = u (borders (reset_fields s)) (Nxmax - 1, j)"
proof -
  have sh: "shear (borders (reset_fields s))" by (rule shear_borders)
  have v: "dbl_of_int j * V0 = Fin (of_int j)" using assms by (simp add: shear_value)
  have p: "w (borders (reset_fields s)) (i, j) = 0 \<and>
    u (borders (reset_fields s)) (i, j) = (if is_inside_beam i j then 0 else Fin (of_int j))"
    using sh assms unfolding shear_def by blast
  have top: "u (borders (reset_fields s)) (i, Nymax) = Fin 30"
    and below: "u (borders (reset_fields s)) (i, Nymax - 1) = Fin 29"
    using sh assms unfolding shear_def by (auto simp: inside_iff Nymax_def)
  have inlet: "u (borders (reset_fields s)) (1, j) = Fin (of_int j)"
    "u (borders (reset_fields s)) (0, j) = Fin (of_int j)"
    using sh assms unfolding shear_def by (auto simp: inside_iff Nxmax_def)
  have outlet: "u (borders (reset_fields s)) (Nxmax, j) = Fin (of_int j)"
    "u (borders (reset_fields s)) (Nxmax - 1, j) = Fin (of_int j)"
    using sh assms unfolding shear_def by (auto simp: inside_iff Nxmax_def)
  show ?thesis
    using p v by (simp add: top below top_value inlet outlet)
qed


theorem borders_shear_profile_witness:
  "(0::int) \<le> 5 \<and> 5 \<le> Nxmax \<and> (0::int) \<le> 3 \<and> 3 \<le> Nymax \<and>
   w (borders (reset_fields init_state)) (5, 3) = 0 \<and>
   u (borders (reset_fields init_state)) (5, 3) = Fin 3 \<and>
   u (borders (reset_fields init_state)) (12, 3) = 0"
proof -
  have a: "(0::int) \<le> 5" "5 \<le> Nxmax" "(0::int) \<le> 3" "3 \<le> Nymax" "(0::int) \<le> 12" "12 \<le> Nxmax"
    by (simp_all add: Nxmax_def Nymax_def)
  show ?thesis
    using a borders_shear_profile [OF a(1) a(2) a(3) a(4), of init_state]
      borders_shear_profile [OF a(5) a(6) a(3) a(4), of init_state]
    by (simp add: inside_iff)
qed


section \<open>Properties of the obstacle-surface enforcement\<close>


lemma zero_row:
  "fold (\<lambda>j s. set_w i j 0 (set_u i j 0 s)) js s =
     s\<lparr>u := (\<lambda>n. if fst n = i \<and> snd n \<in> set js then 0 else u s n),
       w := (\<lambda>n. if fst n = i \<and> snd n \<in> set js then 0 else w s n)\<rparr>"
  by (induction js arbitrary: s) (auto simp: set_u_def set_w_def fun_eq_iff)

lemma zero_grid:
  "fold (\<lambda>i. fold (\<lambda>j s. set_w i j 0 (set_u i j 0 s)) js) ks s =
     s\<lparr>u := (\<lambda>n. if fst n \<in> set ks \<and> snd n \<in> set js then 0 else u s n),
       w := (\<lambda>n. if fst n \<in> set ks \<and> snd n \<in> set js then 0 else w s n)\<rparr>"
  by (induction ks arbitrary: s) (auto simp: zero_row fun_eq_iff)

lemma fold_col:
  "fold (\<lambda>j s. set_w c j (g (u s) j) s) js s =
     s\<lparr>w := (\<lambda>n. if fst n = c \<and> snd n \<in> set js then g (u s) (snd n) else w s n)\<rparr>"
  by (induction js arbitrary: s) (auto simp: set_w_def fun_eq_iff)

lemma fold_row:
  "fold (\<lambda>i s. set_w i c (g (u s) i) s) ks s =
     s\<lparr>w := (\<lambda>n. if snd n = c \<and> fst n \<in> set ks then g (u s) (fst n) else w s n)\<rparr>"
  by (induction ks arbitrary: s) (auto simp: set_w_def fun_eq_iff)

lemma beam_interior_eq:
  "beam_interior s =
     s\<lparr>u := (\<lambda>n. if is_inside_beam (fst n) (snd n) then 0 else u s n),
       w := (\<lambda>n. if is_inside_beam (fst n) (snd n) then 0 else w s n)\<rparr>"
  unfolding beam_interior_def zero_grid set_upto
  by (simp add: is_inside_beam_def IL_def T_def H_def Nxmax_def Nymax_def)

lemma beam_front_eq:
  "beam_front s =
     s\<lparr>w := (\<lambda>n. if fst n = IL - 1 \<and> 1 \<le> snd n \<and> snd n \<le> H
                then - lit 2 * u s (IL - 2, snd n) / (h * h) else w s n)\<rparr>"
  using fold_col [where g = "\<lambda>f j. - lit 2 * f (IL - 2, j) / (h * h)" and c = "IL - 1"
      and js = "[1..min H (Nymax - 1)]" and s = s]
  unfolding beam_front_def set_upto
  by (simp add: IL_def H_def Nymax_def)

lemma beam_back_eq:
  "beam_back s =
     s\<lparr>w := (\<lambda>n. if fst n = IL + T + 1 \<and> 1 \<le> snd n \<and> snd n \<le> H
                then - lit 2 * u s (IL + T + 2, snd n) / (h * h) else w s n)\<rparr>"
  using fold_col [where g = "\<lambda>f j. - lit 2 * f (IL + T + 2, j) / (h * h)" and c = "IL + T + 1"
      and js = "[1..min H (Nymax - 1)]" and s = s]
  unfolding beam_back_def set_upto
  by (simp add: IL_def T_def H_def Nymax_def Nxmax_def)

lemma beam_top_eq:
  "beam_top s =
     s\<lparr>w := (\<lambda>n. if snd n = H + 1 \<and> IL \<le> fst n \<and> fst n \<le> IL + T
                then - lit 2 * u s (fst n, H + 2) / (h * h) else w s n)\<rparr>"
  using fold_row [where g = "\<lambda>f i. - lit 2 * f (i, H + 2) / (h * h)" and c = "H + 1"
      and ks = "[IL..min (IL + T) Nxmax]" and s = s]
  unfolding beam_top_def set_upto
  by (simp add: IL_def T_def H_def Nymax_def Nxmax_def)


lemma beam_corner_left_eq:
  "beam_corner_left s =
     s\<lparr>w := (w s)((IL - 1, H + 1) :=
        (let w_from_vertical = - lit 2 * u s (IL - 2, H + 1) / (h * h);
             w_from_horizontal = - lit 2 * u s (IL - 1, H + 2) / (h * h)
         in if lit 5 \<le> R_target s then
              (if \<bar>w_from_vertical\<bar> < \<bar>w_from_horizontal\<bar>
               then lit (7 / 10) * w_from_vertical + lit (3 / 10) * w_from_horizontal
               else lit (3 / 10) * w_from_vertical + lit (7 / 10) * w_from_horizontal)
            else lit (1 / 2) * (w_from_vertical + w_from_horizontal)))\<rparr>"
  by (simp add: beam_corner_left_def Let_def set_w_def IL_def H_def Nymax_def)

lemma beam_corner_right_eq:
  "beam_corner_right s =
     s\<lparr>w := (w s)((IL + T + 1, H + 1) :=
        (let w_from_vertical = - lit 2 * u s (IL + T + 2, H + 1) / (h * h);
             w_from_horizontal = - lit 2 * u s (IL + T + 1, H + 2) / (h * h)
         in if lit 5 \<le> R_target s then
              (if \<bar>w_from_vertical\<bar> < \<bar>w_from_horizontal\<bar>
               then lit (7 / 10) * w_from_vertical + lit (3 / 10) * w_from_horizontal
               else lit (3 / 10) * w_from_vertical + lit (7 / 10) * w_from_horizontal)
            else lit (1 / 2) * (w_from_vertical + w_from_horizontal)))\<rparr>"
  by (simp add: beam_corner_right_def Let_def set_w_def IL_def T_def H_def Nymax_def Nxmax_def)

lemma smooth_node_frame:
  "u (smooth_node di dj s) = u s \<and>
   (is_inside_beam i j \<longrightarrow> w (smooth_node di dj s) (i, j) = w s (i, j))"
  by (auto simp: smooth_node_def Let_def split: prod.splits)

lemma beam_smoothing_frame:
  "u (beam_smoothing s) = u s \<and>
   (is_inside_beam i j \<longrightarrow> w (beam_smoothing s) (i, j) = w s (i, j))"
proof -
  let ?P = "\<lambda>t. u t = u s \<and> (is_inside_beam i j \<longrightarrow> w t (i, j) = w s (i, j))"
  have step: "?P t \<Longrightarrow> ?P (smooth_node di dj t)" for t di dj
    using smooth_node_frame [of di dj t i j] by simp
  have row: "?P t \<Longrightarrow> ?P (fold (\<lambda>dj. smooth_node di dj) js t)" for t di js
    by (rule fold_invariant [where P = ?P]) (simp_all add: step)
  have "?P (fold (\<lambda>di. fold (\<lambda>dj. smooth_node di dj) [- 1..1]) [- 1..1] s)"
    by (rule fold_invariant [where P = ?P]) (simp_all add: row)
  then show ?thesis by (simp add: beam_smoothing_def)
qed

lemma stream_node_skip: "is_inside_beam a b \<Longrightarrow> relax_stream_function_node a b s = s"
  by (simp add: relax_stream_function_node_def)

lemma stream_node_other:
  "w (relax_stream_function_node a b s) = w s \<and>
   (n \<noteq> (a, b) \<longrightarrow> u (relax_stream_function_node a b s) n = u s n)"
  by (simp add: relax_stream_function_node_def Let_def)

lemma stream_node_frame:
  "w (relax_stream_function_node a b s) = w s \<and>
   (is_inside_beam i j \<longrightarrow> u (relax_stream_function_node a b s) (i, j) = u s (i, j))"
proof (cases "is_inside_beam a b")
  case True
  then show ?thesis by (simp add: stream_node_skip)
next
  case False
  then have "is_inside_beam i j \<longrightarrow> (i, j) \<noteq> (a, b)" by auto
  with stream_node_other [of a b s "(i, j)"] show ?thesis by blast
qed

lemma vorticity_node_skip: "is_inside_beam a b \<Longrightarrow> relax_vorticity_node a b s = s"
  by (simp add: relax_vorticity_node_def)

lemma vorticity_node_other:
  "u (relax_vorticity_node a b s) = u s \<and>
   (n \<noteq> (a, b) \<longrightarrow> w (relax_vorticity_node a b s) n = w s n)"
  by (simp add: relax_vorticity_node_def Let_def)

lemma vorticity_node_frame:
  "u (relax_vorticity_node a b s) = u s \<and>
   (is_inside_beam i j \<longrightarrow> w (relax_vorticity_node a b s) (i, j) = w s (i, j))"
proof (cases "is_inside_beam a b")
  case True
  then show ?thesis by (simp add: vorticity_node_skip)
next
  case False
  then have "is_inside_beam i j \<longrightarrow> (i, j) \<noteq> (a, b)" by auto
  with vorticity_node_other [of a b s "(i, j)"] show ?thesis by blast
qed

lemma stream_frame:
  "w (relax_stream_function s) = w s \<and>
   (is_inside_beam i j \<longrightarrow> u (relax_stream_function s) (i, j) = u s (i, j))"
proof -
  let ?P = "\<lambda>t. w t = w s \<and> (is_inside_beam i j \<longrightarrow> u t (i, j) = u s (i, j))"
  have step: "?P t \<Longrightarrow> ?P (relax_stream_function_node a b t)" for t a b
    using stream_node_frame [of a b t i j] by simp
  have row: "?P t \<Longrightarrow> ?P (fold (\<lambda>b. relax_stream_function_node a b) js t)" for t a js
    by (rule fold_invariant [where P = ?P]) (simp_all add: step)
  have "?P (fold (\<lambda>a. fold (\<lambda>b. relax_stream_function_node a b) [1..Nymax - 1]) [1..Nxmax - 1] s)"
    by (rule fold_invariant [where P = ?P]) (simp_all add: row)
  then show ?thesis by (simp add: relax_stream_function_def)
qed

lemma vorticity_frame:
  "u (relax_vorticity s) = u s \<and>
   (is_inside_beam i j \<longrightarrow> w (relax_vorticity s) (i, j) = w s (i, j))"
proof -
  let ?P = "\<lambda>t. u t = u s \<and> (is_inside_beam i j \<longrightarrow> w t (i, j) = w s (i, j))"
  have step: "?P t \<Longrightarrow> ?P (relax_vorticity_node a b t)" for t a b
    using vorticity_node_frame [of a b t i j] by simp
  have row: "?P t \<Longrightarrow> ?P (fold (\<lambda>b. relax_vorticity_node a b) js t)" for t a js
    by (rule fold_invariant [where P = ?P]) (simp_all add: step)
  have "?P (fold (\<lambda>a. fold (\<lambda>b. relax_vorticity_node a b) [1..Nymax - 1]) [1..Nxmax - 1] s)"
    by (rule fold_invariant [where P = ?P]) (simp_all add: row)
  then show ?thesis by (simp add: relax_vorticity_def)
qed

lemma beam_boundaries_eq: "beam_boundaries s = beam_smoothing (beam_walls s)"
  by (simp add: beam_boundaries_def beam_walls_def)

lemma beam_walls_inside:
  "is_inside_beam i j \<Longrightarrow> u (beam_walls s) (i, j) = 0 \<and> w (beam_walls s) (i, j) = 0"
  by (auto simp: beam_walls_def beam_corner_right_eq beam_corner_left_eq beam_top_eq beam_back_eq
      beam_front_eq beam_interior_eq inside_iff IL_def T_def H_def)

lemma beam_boundaries_inside:
  "is_inside_beam i j \<Longrightarrow> u (beam_boundaries s) (i, j) = 0 \<and> w (beam_boundaries s) (i, j) = 0"
  using beam_smoothing_frame [of "beam_walls s" i j] beam_walls_inside [of i j s]
  by (simp add: beam_boundaries_eq)

lemma wall_steps_frame:
  assumes "is_inside_beam i j"
  shows "\<forall>step \<in> set [beam_front, beam_back, beam_top, beam_corner_left, beam_corner_right,
           beam_smoothing].
         u (step s) (i, j) = u s (i, j) \<and> w (step s) (i, j) = w s (i, j)"
  using assms beam_smoothing_frame [of s i j]
  by (auto simp: beam_corner_right_eq beam_corner_left_eq beam_top_eq beam_back_eq
      beam_front_eq inside_iff IL_def T_def H_def)


text \<open>
  C1: at every node of the obstacle rectangle both fields are zero after
  \<^verbatim>\<open>beam_boundaries\<close>, hence in the snapshot and at the end of every pass of the
  convergence loop; the wall, corner and smoothing steps leave the fields at such a node as
  they were, the two sweeps do nothing at such a node, and no other node's update changes
  it.
\<close>

theorem obstacle_invariant:
  assumes "is_inside_beam i j"
  shows "u (beam_boundaries s) (i, j) = 0 \<and> w (beam_boundaries s) (i, j) = 0 \<and>
    (case iteration s of (t, u_old, w_old, max_diff_u, max_diff_w) \<Rightarrow>
       u t (i, j) = 0 \<and> w t (i, j) = 0 \<and> u_old (i, j) = 0 \<and> w_old (i, j) = 0) \<and>
    (\<forall>step \<in> set [beam_front, beam_back, beam_top, beam_corner_left, beam_corner_right,
        beam_smoothing].
       u (step s) (i, j) = u s (i, j) \<and> w (step s) (i, j) = w s (i, j)) \<and>
    relax_stream_function_node i j s = s \<and> relax_vorticity_node i j s = s \<and>
    (\<forall>sweep \<in> set [relax_stream_function, relax_vorticity].
       u (sweep s) (i, j) = u s (i, j) \<and> w (sweep s) (i, j) = w s (i, j))"
proof -
  have "case iteration s of (t, u_old, w_old, max_diff_u, max_diff_w) \<Rightarrow>
       u t (i, j) = 0 \<and> w t (i, j) = 0 \<and> u_old (i, j) = 0 \<and> w_old (i, j) = 0"
    using assms by (simp add: iteration_def Let_def beam_boundaries_inside split: prod.splits)
  moreover have "\<forall>sweep \<in> set [relax_stream_function, relax_vorticity].
       u (sweep s) (i, j) = u s (i, j) \<and> w (sweep s) (i, j) = w s (i, j)"
    using assms stream_frame [of s i j] vorticity_frame [of s i j] by simp
  ultimately show ?thesis
    using assms wall_steps_frame [OF assms, of s]
    by (simp only: beam_boundaries_inside stream_node_skip vorticity_node_skip simp_thms)
qed

theorem obstacle_invariant_witness:
  "is_inside_beam 12 3 \<and>
   u (beam_boundaries sevens) (12, 3) = 0 \<and> w (beam_boundaries sevens) (12, 3) = 0 \<and>
   u (beam_top sevens) (12, 3) = Fin 7 \<and> w (beam_smoothing sevens) (12, 3) = Fin 7 \<and>
   relax_vorticity_node 12 3 sevens = sevens \<and>
   u (relax_stream_function sevens) (12, 3) = Fin 7"
proof -
  have a: "is_inside_beam 12 3" by (simp add: inside_iff)
  have b: "u sevens (12, 3) = Fin 7" "w sevens (12, 3) = Fin 7" by (simp_all add: sevens_def)
  show ?thesis
    using a b obstacle_invariant [OF a, of sevens] by simp
qed



lemma corner_left_eq': "beam_corner_left s = s\<lparr>w := (w s)((IL - 1, H + 1) := corner_left_value s)\<rparr>"
  by (simp add: beam_corner_left_eq corner_left_value_def)

lemma corner_right_eq': "beam_corner_right s = s\<lparr>w := (w s)((IL + T + 1, H + 1) := corner_right_value s)\<rparr>"
  by (simp add: beam_corner_right_eq corner_right_value_def)


lemma beam_interior_acc:
  "u (beam_interior s) n = (if is_inside_beam (fst n) (snd n) then 0 else u s n)"
  "w (beam_interior s) n = (if is_inside_beam (fst n) (snd n) then 0 else w s n)"
  "R_target (beam_interior s) = R_target s"
  by (simp_all add: beam_interior_eq)

lemma beam_front_acc:
  "u (beam_front s) = u s"
  "w (beam_front s) n = (if fst n = IL - 1 \<and> 1 \<le> snd n \<and> snd n \<le> H
                then - lit 2 * u s (IL - 2, snd n) / (h * h) else w s n)"
  "R_target (beam_front s) = R_target s"
  by (simp_all add: beam_front_eq)

lemma beam_back_acc:
  "u (beam_back s) = u s"
  "w (beam_back s) n = (if fst n = IL + T + 1 \<and> 1 \<le> snd n \<and> snd n \<le> H
                then - lit 2 * u s (IL + T + 2, snd n) / (h * h) else w s n)"
  "R_target (beam_back s) = R_target s"
  by (simp_all add: beam_back_eq)

lemma beam_top_acc:
  "u (beam_top s) = u s"
  "w (beam_top s) n = (if snd n = H + 1 \<and> IL \<le> fst n \<and> fst n \<le> IL + T
                then - lit 2 * u s (fst n, H + 2) / (h * h) else w s n)"
  "R_target (beam_top s) = R_target s"
  by (simp_all add: beam_top_eq)

lemma beam_corner_left_acc:
  "u (beam_corner_left s) = u s"
  "w (beam_corner_left s) n = (if n = (IL - 1, H + 1) then corner_left_value s else w s n)"
  "R_target (beam_corner_left s) = R_target s"
  by (simp_all add: corner_left_eq')

lemma beam_corner_right_acc:
  "u (beam_corner_right s) = u s"
  "w (beam_corner_right s) n = (if n = (IL + T + 1, H + 1) then corner_right_value s else w s n)"
  "R_target (beam_corner_right s) = R_target s"
  by (simp_all add: corner_right_eq')

lemmas wall_acc = beam_corner_right_acc beam_corner_left_acc beam_top_acc beam_back_acc
  beam_front_acc beam_interior_acc

lemma beam_walls_u: "u (beam_walls s) n = (if is_inside_beam (fst n) (snd n) then 0 else u s n)"
  by (simp add: beam_walls_def wall_acc)

lemma beam_walls_R_target: "R_target (beam_walls s) = R_target s"
  by (simp add: beam_walls_def wall_acc)

lemma corner_values_walls:
  "corner_left_value (beam_walls s) = corner_left_value s"
  "corner_right_value (beam_walls s) = corner_right_value s"
  by (simp_all add: corner_left_value_def corner_right_value_def beam_walls_u beam_walls_R_target
      inside_iff IL_def T_def H_def)

lemma beam_walls_w_left: "w (beam_walls s) (IL - 1, H + 1) = corner_left_value s"
  by (simp add: beam_walls_def wall_acc corner_left_value_def is_inside_beam_def T_def)

lemma beam_walls_w_right: "w (beam_walls s) (IL + T + 1, H + 1) = corner_right_value s"
  by (simp add: beam_walls_def wall_acc corner_right_value_def is_inside_beam_def T_def)

lemma beam_walls_w_front:
  "1 \<le> j \<Longrightarrow> j \<le> H \<Longrightarrow> w (beam_walls s) (IL - 1, j) = - lit 2 * u s (IL - 2, j) / (h * h)"
  by (simp add: beam_walls_def wall_acc inside_iff IL_def T_def H_def)

lemma beam_walls_w_back:
  "1 \<le> j \<Longrightarrow> j \<le> H \<Longrightarrow> w (beam_walls s) (IL + T + 1, j) = - lit 2 * u s (IL + T + 2, j) / (h * h)"
  by (simp add: beam_walls_def wall_acc inside_iff IL_def T_def H_def)

lemma beam_walls_w_top:
  "IL \<le> i \<Longrightarrow> i \<le> IL + T \<Longrightarrow> w (beam_walls s) (i, H + 1) = - lit 2 * u s (i, H + 2) / (h * h)"
  by (simp add: beam_walls_def wall_acc inside_iff IL_def T_def H_def)

lemma beam_walls_w:
  "w (beam_walls s) n =
     (if n = (IL + T + 1, H + 1) then corner_right_value s
      else if n = (IL - 1, H + 1) then corner_left_value s
      else if snd n = H + 1 \<and> IL \<le> fst n \<and> fst n \<le> IL + T then - lit 2 * u s (fst n, H + 2) / (h * h)
      else if fst n = IL + T + 1 \<and> 1 \<le> snd n \<and> snd n \<le> H
        then - lit 2 * u s (IL + T + 2, snd n) / (h * h)
      else if fst n = IL - 1 \<and> 1 \<le> snd n \<and> snd n \<le> H
        then - lit 2 * u s (IL - 2, snd n) / (h * h)
      else if is_inside_beam (fst n) (snd n) then 0 else w s n)"
  by (simp add: beam_walls_def wall_acc corner_left_value_def corner_right_value_def
      is_inside_beam_def)

lemma walls_fixed_beam_walls: "walls_fixed (beam_walls s)"
proof -
  have "is_inside_beam (fst n) (snd n) \<longrightarrow> u (beam_walls s) n = 0 \<and> w (beam_walls s) n = 0" for n
    using beam_walls_inside [of "fst n" "snd n" s] by simp
  moreover have "\<not> is_inside_beam (IL - 2) j" "\<not> is_inside_beam (IL + T + 2) j"
    "\<not> is_inside_beam i (H + 2)" for i j
    by (simp_all add: is_inside_beam_def)
  ultimately show ?thesis
    unfolding walls_fixed_def
    by (simp add: beam_walls_w_front beam_walls_w_back beam_walls_w_top beam_walls_w_left
        beam_walls_w_right corner_values_walls beam_walls_u)
qed

lemma fixed_interior: "walls_fixed t \<Longrightarrow> beam_interior t = t"
proof -
  assume a: "walls_fixed t"
  have "(\<lambda>n. if is_inside_beam (fst n) (snd n) then 0 else u t n) = u t"
    "(\<lambda>n. if is_inside_beam (fst n) (snd n) then 0 else w t n) = w t"
    using a by (auto simp: walls_fixed_def fun_eq_iff)
  then show ?thesis by (simp add: beam_interior_eq)
qed

lemma fixed_front: "walls_fixed t \<Longrightarrow> beam_front t = t"
proof -
  assume a: "walls_fixed t"
  have "(\<lambda>n. if fst n = IL - 1 \<and> 1 \<le> snd n \<and> snd n \<le> H
                then - lit 2 * u t (IL - 2, snd n) / (h * h) else w t n) = w t"
    using a by (auto simp: walls_fixed_def fun_eq_iff)
  then show ?thesis by (simp add: beam_front_eq)
qed

lemma fixed_back: "walls_fixed t \<Longrightarrow> beam_back t = t"
proof -
  assume a: "walls_fixed t"
  have "(\<lambda>n. if fst n = IL + T + 1 \<and> 1 \<le> snd n \<and> snd n \<le> H
                then - lit 2 * u t (IL + T + 2, snd n) / (h * h) else w t n) = w t"
    using a by (auto simp: walls_fixed_def fun_eq_iff)
  then show ?thesis by (simp add: beam_back_eq)
qed

lemma fixed_top: "walls_fixed t \<Longrightarrow> beam_top t = t"
proof -
  assume a: "walls_fixed t"
  have "(\<lambda>n. if snd n = H + 1 \<and> IL \<le> fst n \<and> fst n \<le> IL + T
                then - lit 2 * u t (fst n, H + 2) / (h * h) else w t n) = w t"
    using a by (auto simp: walls_fixed_def fun_eq_iff)
  then show ?thesis by (simp add: beam_top_eq)
qed

lemma fixed_corner_left: "walls_fixed t \<Longrightarrow> beam_corner_left t = t"
proof -
  assume a: "walls_fixed t"
  have "(w t)((IL - 1, H + 1) := corner_left_value t) = w t"
    using a by (auto simp: walls_fixed_def fun_eq_iff)
  then show ?thesis by (simp add: corner_left_eq')
qed

lemma fixed_corner_right: "walls_fixed t \<Longrightarrow> beam_corner_right t = t"
proof -
  assume a: "walls_fixed t"
  have "(w t)((IL + T + 1, H + 1) := corner_right_value t) = w t"
    using a by (auto simp: walls_fixed_def fun_eq_iff)
  then show ?thesis by (simp add: corner_right_eq')
qed

lemma fixed_walls: "walls_fixed t \<Longrightarrow> beam_walls t = t"
  by (simp add: beam_walls_def fixed_interior fixed_front fixed_back fixed_top fixed_corner_left
      fixed_corner_right)

lemma beam_walls_idem: "beam_walls (beam_walls s) = beam_walls s"
  by (rule fixed_walls) (rule walls_fixed_beam_walls)

lemma beam_smoothing_off: "\<not> lit 5 \<le> R_target s \<Longrightarrow> beam_smoothing s = s"
  by (simp add: beam_smoothing_def)

lemma beam_boundaries_low: "\<not> lit 5 \<le> R_target s \<Longrightarrow> beam_boundaries s = beam_walls s"
  by (simp add: beam_boundaries_eq beam_smoothing_off beam_walls_R_target)

lemma beam_boundaries_idem_low:
  "\<not> lit 5 \<le> R_target s \<Longrightarrow> beam_boundaries (beam_boundaries s) = beam_boundaries s"
  by (simp add: beam_boundaries_low beam_walls_R_target beam_walls_idem)


lemma upto_m1_1: "[- 1..1::int] = [- 1, 0, 1]"
  by (simp add: upto.simps)

lemma walls_fixed_spike: "walls_fixed (spike x)"
  by (simp add: walls_fixed_def spike_def init_state_def corner_left_value_def
      corner_right_value_def inside_iff IL_def T_def H_def h_def b64)

lemma smoothing_spike_10: "beam_smoothing (spike 10) = spike 6"
  by (simp add: beam_smoothing_def smooth_node_def smooth_neighbours_def Let_def spike_def
      init_state_def inside_iff IL_def T_def H_def Nxmax_def Nymax_def set_w_def b64 upto_m1_1)

lemma smoothing_spike_6: "beam_smoothing (spike 6) = spike (2026619832316723 / 2 ^ 49)"
  by (simp add: beam_smoothing_def smooth_node_def smooth_neighbours_def Let_def spike_def
      init_state_def inside_iff IL_def T_def H_def Nxmax_def Nymax_def set_w_def b64 upto_m1_1)

text \<open>
  At the configured Reynolds number 5 a second call smooths the spike once more: the
  vorticity beside the corner goes from 10 to 6 in the first call and to about 3.6 in the
  second.
\<close>

theorem beam_boundaries_not_idempotent:
  "R_target (spike 10) \<in> set reynolds_values \<and>
   beam_boundaries (beam_boundaries (spike 10)) \<noteq> beam_boundaries (spike 10)"
proof -
  have 0: "R_target (spike 10) \<in> set reynolds_values"
    by (simp add: spike_def reynolds_values_def)
  have 1: "beam_boundaries (spike 10) = spike 6"
    by (simp add: beam_boundaries_eq fixed_walls walls_fixed_spike smoothing_spike_10)
  have 2: "beam_boundaries (spike 6) = spike (2026619832316723 / 2 ^ 49)"
    by (simp add: beam_boundaries_eq fixed_walls walls_fixed_spike smoothing_spike_6)
  have "w (spike (2026619832316723 / 2 ^ 49)) (8, 8) \<noteq> w (spike 6) (8, 8)"
    by (simp add: spike_def)
  then have "spike (2026619832316723 / 2 ^ 49) \<noteq> spike 6" by metis
  with 0 show ?thesis by (simp only: 1 2 not_False_eq_True simp_thms)
qed


lemma dbl_less_not_le: "a < b \<Longrightarrow> \<not> b \<le> (a::dbl)"
  by (cases a; cases b) simp_all

lemma dbl_less_asym: "a < b \<Longrightarrow> \<not> b < (a::dbl)"
  by (cases a; cases b) simp_all

lemma smooth_node_other:
  "n \<noteq> (IL - 1 + di, H + 1 + dj) \<Longrightarrow> w (smooth_node di dj s) n = w s n"
  by (auto simp: smooth_node_def Let_def split: prod.splits)

lemma beam_smoothing_outside:
  assumes "fst n < IL - 2 \<or> IL < fst n \<or> snd n < H \<or> H + 2 < snd n"
  shows "w (beam_smoothing s) n = w s n"
proof -
  let ?P = "\<lambda>t. w t n = w s n"
  have step: "?P t \<Longrightarrow> di \<in> set [- 1..1] \<Longrightarrow> dj \<in> set [- 1..1] \<Longrightarrow> ?P (smooth_node di dj t)"
    for t di dj
  proof -
    assume p: "?P t" and d: "di \<in> set [- 1..1]" "dj \<in> set [- 1..1]"
    from assms d have "n \<noteq> (IL - 1 + di, H + 1 + dj)" by (cases n) auto
    with p show "?P (smooth_node di dj t)" by (simp add: smooth_node_other)
  qed
  have row: "?P t \<Longrightarrow> di \<in> set [- 1..1] \<Longrightarrow> ?P (fold (\<lambda>dj. smooth_node di dj) [- 1..1] t)"
    for t di
    by (rule fold_invariant [where P = ?P]) (simp_all add: step)
  have "?P (fold (\<lambda>di. fold (\<lambda>dj. smooth_node di dj) [- 1..1]) [- 1..1] s)"
    by (rule fold_invariant [where P = ?P]) (simp_all add: row)
  then show ?thesis by (simp add: beam_smoothing_def)
qed

lemma beam_boundaries_right_corner:
  "w (beam_boundaries s) (IL + T + 1, H + 1) = corner_right_value s"
proof -
  have "w (beam_smoothing (beam_walls s)) (IL + T + 1, H + 1) = w (beam_walls s) (IL + T + 1, H + 1)"
    by (rule beam_smoothing_outside) (simp add: T_def)
  then show ?thesis by (simp only: beam_boundaries_eq beam_walls_w_right)
qed

text \<open>
  C5: right after the corner step the vorticity at each top corner node is the blend of the
  two single-face estimates, with weights 0.5/0.5 below 5.0 and 0.7/0.3 from 5.0 on, the 0.7
  on the estimate of smaller magnitude. At the right corner, and at the left corner below
  5.0, this is also the value when \<^verbatim>\<open>beam_boundaries\<close> returns.
\<close>

theorem corner_blend:
  fixes s :: state
  defines "lv \<equiv> - lit 2 * u s (IL - 2, H + 1) / (h * h)"
    and "lh \<equiv> - lit 2 * u s (IL - 1, H + 2) / (h * h)"
    and "rv \<equiv> - lit 2 * u s (IL + T + 2, H + 1) / (h * h)"
    and "rh \<equiv> - lit 2 * u s (IL + T + 1, H + 2) / (h * h)"
    and "cl \<equiv> w (beam_walls s) (IL - 1, H + 1)"
    and "cr \<equiv> w (beam_walls s) (IL + T + 1, H + 1)"
  shows "(R_target s < lit 5 \<longrightarrow>
            cl = lit (1 / 2) * (lv + lh) \<and> cr = lit (1 / 2) * (rv + rh) \<and>
            w (beam_boundaries s) (IL - 1, H + 1) = cl) \<and>
         (lit 5 \<le> R_target s \<and> \<bar>lv\<bar> < \<bar>lh\<bar> \<longrightarrow> cl = lit (7 / 10) * lv + lit (3 / 10) * lh) \<and>
         (lit 5 \<le> R_target s \<and> \<bar>lh\<bar> < \<bar>lv\<bar> \<longrightarrow> cl = lit (3 / 10) * lv + lit (7 / 10) * lh) \<and>
         (lit 5 \<le> R_target s \<and> \<bar>rv\<bar> < \<bar>rh\<bar> \<longrightarrow> cr = lit (7 / 10) * rv + lit (3 / 10) * rh) \<and>
         (lit 5 \<le> R_target s \<and> \<bar>rh\<bar> < \<bar>rv\<bar> \<longrightarrow> cr = lit (3 / 10) * rv + lit (7 / 10) * rh) \<and>
         w (beam_boundaries s) (IL + T + 1, H + 1) = cr"
  unfolding cl_def cr_def lv_def lh_def rv_def rh_def beam_boundaries_right_corner
    beam_walls_w_left beam_walls_w_right
  by (auto simp: corner_left_value_def corner_right_value_def Let_def beam_boundaries_low
      beam_walls_w_left dest: dbl_less_not_le dbl_less_asym)

theorem corner_blend_witness:
  "R_target (ramp (lit 2)) < lit 5 \<and>
   w (beam_boundaries (ramp (lit 2))) (IL - 1, H + 1) = Fin (- 19) \<and>
   lit 5 \<le> R_target (ramp (lit 5)) \<and>
   \<bar>- lit 2 * u (ramp (lit 5)) (IL + T + 2, H + 1) / (h * h)\<bar>
     < \<bar>- lit 2 * u (ramp (lit 5)) (IL + T + 1, H + 2) / (h * h)\<bar> \<and>
   w (beam_boundaries (ramp (lit 5))) (IL + T + 1, H + 1) = Fin (- (2617717283409101 / 2 ^ 47))"
proof -
  have a: "R_target (ramp (lit 2)) < lit 5" "lit 5 \<le> R_target (ramp (lit 5))"
    by (simp_all add: ramp_def b64)
  have b: "\<bar>- lit 2 * u (ramp (lit 5)) (IL + T + 2, H + 1) / (h * h)\<bar>
     < \<bar>- lit 2 * u (ramp (lit 5)) (IL + T + 1, H + 2) / (h * h)\<bar>"
    by (simp add: ramp_def IL_def T_def H_def h_def b64)
  show ?thesis
    using a b corner_blend [of "ramp (lit 2)"] corner_blend [of "ramp (lit 5)"]
    by (simp add: ramp_def IL_def T_def H_def h_def b64)
qed



text \<open>
  C7: the steps before the smoothing are idempotent, and so is \<^verbatim>\<open>beam_boundaries\<close> whenever
  the smoothing is off, that is unless \<open>R_target >= 5.0\<close>.
\<close>

theorem beam_boundaries_idempotent:
  "beam_walls (beam_walls s) = beam_walls s \<and>
   (\<not> lit 5 \<le> R_target s \<longrightarrow> beam_boundaries (beam_boundaries s) = beam_boundaries s)"
  by (simp add: beam_walls_idem beam_boundaries_idem_low)

theorem beam_boundaries_idempotent_witness:
  "\<not> lit 5 \<le> R_target (ramp (lit 2)) \<and> R_target (ramp (lit 2)) < lit 5 \<and>
   beam_boundaries (beam_boundaries (ramp (lit 2))) = beam_boundaries (ramp (lit 2))"
proof -
  have a: "\<not> lit 5 \<le> R_target (ramp (lit 2))" by (simp add: ramp_def b64)
  have b: "R_target (ramp (lit 2)) < lit 5" by (simp add: ramp_def b64)
  show ?thesis using a b beam_boundaries_idempotent [of "ramp (lit 2)"] by simp
qed

lemma configure_reynolds_fields:
  "u (configure_reynolds re s) = u s" "w (configure_reynolds re s) = w s"
  "R_target (configure_reynolds re s) = re"
  "last_w_error (configure_reynolds re s) = last_w_error s"
  "stagnant_count (configure_reynolds re s) = stagnant_count s"
  "exported (configure_reynolds re s) = exported s"
  by (simp_all add: configure_reynolds_def Let_def)

lemma same_scalars_refl [simp]: "same_scalars s s"
  by (simp add: same_scalars_def)

lemma same_scalars_set [simp]:
  "same_scalars s (set_u i j v t) = same_scalars s t"
  "same_scalars s (set_w i j v t) = same_scalars s t"
  by (simp_all add: same_scalars_def)

lemma same_scalars_fold:
  "same_scalars s t \<Longrightarrow> (\<And>x y. same_scalars s y \<Longrightarrow> same_scalars s (f x y)) \<Longrightarrow>
   same_scalars s (fold f xs t)"
  by (rule fold_invariant [where P = "same_scalars s"])

lemma same_scalars_borders: "same_scalars s (borders s)"
  unfolding borders_def Let_def
  by (intro same_scalars_fold)
     (simp_all add: borders_fill_def borders_surface_def borders_inlet_def borders_centerline_def
        borders_outlet_def Let_def)

lemma same_scalars_reset_fields: "same_scalars s (reset_fields s)"
  unfolding reset_fields_def
  by (intro same_scalars_fold) simp_all

lemma first_state_R_target: "R_target (first_state re) = re"
  using same_scalars_borders [of "configure_reynolds re (reset_fields init_state)"]
  by (simp add: first_state_def same_scalars_def configure_reynolds_fields)

lemma first_state_u:
  "0 \<le> i \<Longrightarrow> i \<le> Nxmax \<Longrightarrow> 0 \<le> j \<Longrightarrow> j \<le> Nymax \<Longrightarrow>
   u (first_state re) (i, j) = (if is_inside_beam i j then 0 else Fin (of_int j))"
  using shear_borders [of "configure_reynolds re (reset_fields init_state)"]
  by (simp add: first_state_def shear_def)

lemma first_state_w:
  "0 \<le> i \<Longrightarrow> i \<le> Nxmax \<Longrightarrow> 0 \<le> j \<Longrightarrow> j \<le> Nymax \<Longrightarrow> w (first_state re) (i, j) = 0"
  using shear_borders [of "configure_reynolds re (reset_fields init_state)"]
  by (simp add: first_state_def shear_def)

lemma smooth_node_value:
  "smooth_node di dj s =
     (let ii = IL - 1 + di; jj = H + 1 + dj in
      if 0 < ii \<and> ii < Nxmax \<and> 0 < jj \<and> jj < Nymax \<and> \<not> is_inside_beam ii jj \<and>
         lit 2 < \<bar>w s (ii, jj)\<bar> \<and> 0 < snd (smooth_neighbours ii jj s)
      then set_w ii jj (smoothed_value ii jj s) s else s)"
  by (simp add: smooth_node_def smoothed_value_def Let_def split: prod.splits)

lemma first_state_right_corner:
  "corner_right_value (first_state (lit 5)) = Fin (- (2617717283409101 / 2 ^ 47))"
proof -
  have u1: "u (first_state (lit 5)) (IL + T + 2, H + 1) = Fin 9"
    using first_state_u [of "IL + T + 2" "H + 1" "lit 5"]
    by (simp add: IL_def T_def H_def Nxmax_def Nymax_def inside_iff)
  have u2: "u (first_state (lit 5)) (IL + T + 1, H + 2) = Fin 10"
    using first_state_u [of "IL + T + 1" "H + 2" "lit 5"]
    by (simp add: IL_def T_def H_def Nxmax_def Nymax_def inside_iff)
  show ?thesis
    unfolding corner_right_value_def Let_def u1 u2 first_state_R_target
    by (simp add: h_def b64)
qed

lemma right_neighbours:
  "smooth_neighbours (IL + T + 1) (H + 1) (beam_walls (first_state (lit 5))) = (Fin (- 36), 7)"
proof -
  let ?s = "first_state (lit 5)"
  have u1: "u ?s (18, 10) = Fin 10"
    using first_state_u [of 18 10 "lit 5"] by (simp add: Nxmax_def Nymax_def inside_iff)
  have u2: "u ?s (20, 8) = Fin 8"
    using first_state_u [of 20 8 "lit 5"] by (simp add: Nxmax_def Nymax_def inside_iff)
  have z: "w ?s (18, 10) = 0" "w ?s (19, 10) = 0" "w ?s (20, 8) = 0" "w ?s (20, 9) = 0"
    "w ?s (20, 10) = 0"
    using first_state_w [of _ _ "lit 5"] by (simp_all add: Nxmax_def Nymax_def)
  have a': "w (beam_walls ?s) (18, 9) = - lit 2 * Fin 10 / (h * h)"
    using beam_walls_w_top [of 18 ?s] by (simp add: IL_def T_def H_def u1)
  have a: "w (beam_walls ?s) (18, 9) = Fin (- 20)"
    unfolding a' by (simp add: h_def b64)
  have b': "w (beam_walls ?s) (19, 8) = - lit 2 * Fin 8 / (h * h)"
    using beam_walls_w_back [of 8 ?s] by (simp add: IL_def T_def H_def u2)
  have b: "w (beam_walls ?s) (19, 8) = Fin (- 16)"
    unfolding b' by (simp add: h_def b64)
  have c: "w (beam_walls ?s) (18, 10) = 0" "w (beam_walls ?s) (19, 10) = 0"
    "w (beam_walls ?s) (20, 8) = 0" "w (beam_walls ?s) (20, 9) = 0" "w (beam_walls ?s) (20, 10) = 0"
    by (simp_all add: beam_walls_w inside_iff IL_def T_def H_def z)
  have "smooth_neighbours (IL + T + 1) (H + 1) (beam_walls ?s)
      = (0 + Fin (- 20) + 0 + Fin (- 16) + 0 + 0 + 0 + 0, 7)"
    by (simp add: smooth_neighbours_def Let_def upto_m1_1 inside_iff IL_def T_def H_def
        Nxmax_def Nymax_def a b c)
  then show ?thesis by (simp add: b64)
qed

lemma right_smoothed:
  "smoothed_value (IL + T + 1) (H + 1) (beam_walls (first_state (lit 5)))
     = Fin (- (3720294977895699 / 2 ^ 48))"
  unfolding smoothed_value_def right_neighbours beam_walls_w_right first_state_right_corner
  by (simp add: b64)

text \<open>
  C6 on the first pass of the run at Reynolds number 5: the vorticity at the top-right
  corner node is the corner blend, about \<open>-18.6\<close>, when \<^verbatim>\<open>beam_boundaries\<close> returns. The
  node is in bounds and outside the obstacle, the magnitude exceeds 2.0 and seven of its
  neighbours count for the average, yet no smoothing is applied to it: the filter that the
  code applies around the top-left corner would have set it to about \<open>-13.2\<close>.
\<close>

theorem right_corner_not_smoothed:
  "w (beam_boundaries (first_state (lit 5))) (IL + T + 1, H + 1)
     = Fin (- (2617717283409101 / 2 ^ 47)) \<and>
   w (beam_walls (first_state (lit 5))) (IL + T + 1, H + 1)
     = Fin (- (2617717283409101 / 2 ^ 47)) \<and>
   lit 2 < \<bar>Fin (- (2617717283409101 / 2 ^ 47))\<bar> \<and>
   lit 5 \<le> R_target (first_state (lit 5)) \<and>
   0 < IL + T + 1 \<and> IL + T + 1 < Nxmax \<and> 0 < H + 1 \<and> H + 1 < Nymax \<and>
   \<not> is_inside_beam (IL + T + 1) (H + 1) \<and>
   snd (smooth_neighbours (IL + T + 1) (H + 1) (beam_walls (first_state (lit 5)))) = 7 \<and>
   smoothed_value (IL + T + 1) (H + 1) (beam_walls (first_state (lit 5)))
     = Fin (- (3720294977895699 / 2 ^ 48)) \<and>
   Fin (- (3720294977895699 / 2 ^ 48)) \<noteq> Fin (- (2617717283409101 / 2 ^ 47))"
  by (simp add: beam_boundaries_right_corner beam_walls_w_right first_state_right_corner
      first_state_R_target right_neighbours right_smoothed)
     (simp add: IL_def T_def H_def Nxmax_def Nymax_def inside_iff b64)


section \<open>Properties of the vorticity sweep\<close>













section \<open>Properties of one pass of the convergence loop\<close>



lemma same_scalars_trans: "same_scalars s t \<Longrightarrow> same_scalars t r \<Longrightarrow> same_scalars s r"
  by (simp add: same_scalars_def)

lemma same_scalars_smooth_node: "same_scalars s y \<Longrightarrow> same_scalars s (smooth_node di dj y)"
  by (simp add: smooth_node_def Let_def split: prod.splits)

lemma same_scalars_smoothing: "same_scalars s y \<Longrightarrow> same_scalars s (beam_smoothing y)"
proof -
  assume a: "same_scalars s y"
  have row: "same_scalars s t \<Longrightarrow> same_scalars s (fold (\<lambda>dj. smooth_node di dj) [- 1..1] t)" for t di
    by (rule same_scalars_fold) (simp_all add: same_scalars_smooth_node)
  have "same_scalars s (fold (\<lambda>di. fold (\<lambda>dj. smooth_node di dj) [- 1..1]) [- 1..1] y)"
    using a by (rule same_scalars_fold) (simp add: row)
  with a show ?thesis by (simp add: beam_smoothing_def)
qed

lemma same_scalars_beam_boundaries: "same_scalars s (beam_boundaries s)"
proof -
  have "same_scalars s (beam_walls s)"
    by (simp add: beam_walls_def corner_right_eq' corner_left_eq' beam_top_eq beam_back_eq
        beam_front_eq beam_interior_eq same_scalars_def)
  then show ?thesis by (simp add: beam_boundaries_eq same_scalars_smoothing)
qed

lemma same_scalars_stream: "same_scalars s (relax_stream_function s)"
  unfolding relax_stream_function_def
  by (intro same_scalars_fold) (simp_all add: relax_stream_function_node_def Let_def)

lemma same_scalars_vorticity: "same_scalars s (relax_vorticity s)"
  unfolding relax_vorticity_def
  by (intro same_scalars_fold) (simp_all add: relax_vorticity_node_def Let_def)

lemma iteration_state:
  "fst (iteration s) = beam_boundaries (relax_vorticity (relax_stream_function (beam_boundaries s)))"
  by (simp add: iteration_def Let_def split: prod.splits)

lemma same_scalars_iteration: "same_scalars s (fst (iteration s))"
  unfolding iteration_state
  using same_scalars_beam_boundaries [of s]
    same_scalars_stream [of "beam_boundaries s"]
    same_scalars_vorticity [of "relax_stream_function (beam_boundaries s)"]
    same_scalars_beam_boundaries [of "relax_vorticity (relax_stream_function (beam_boundaries s))"]
  by (simp add: same_scalars_def)


lemma fold_product:
  "fold (\<lambda>i. fold (f i) js) ks a = fold (\<lambda>n. f (fst n) (snd n)) (List.product ks js) a"
  by (induction ks arbitrary: a) (simp_all add: fold_map comp_def)

lemma diff_row_fst:
  "fst (fold (\<lambda>n. diff_node uo wo s (fst n) (snd n)) ns a) =
     run_max (\<lambda>n. \<bar>u s n - uo n\<bar>) ns (fst a)"
  by (induction ns arbitrary: a) (auto simp: run_max_def diff_node_def split: prod.splits)

lemma diff_row_snd:
  "snd (fold (\<lambda>n. diff_node uo wo s (fst n) (snd n)) ns a) =
     run_max (\<lambda>n. \<bar>w s n - wo n\<bar>) ns (snd a)"
  by (induction ns arbitrary: a) (auto simp: run_max_def diff_node_def split: prod.splits)

lemma max_diffs_eq:
  "max_diffs uo wo s =
     (run_max (\<lambda>n. \<bar>u s n - uo n\<bar>) interior_nodes 0,
      run_max (\<lambda>n. \<bar>w s n - wo n\<bar>) interior_nodes 0)"
  unfolding max_diffs_def fold_product
  by (simp add: prod_eq_iff diff_row_fst diff_row_snd interior_nodes_def)

lemma dbl_less_trans: "a < b \<Longrightarrow> b < c \<Longrightarrow> a < (c::dbl)"
  by (cases a; cases b; cases c) simp_all

lemma less_not_nan: "a < (b::dbl) \<Longrightarrow> \<not> isnan a \<and> \<not> isnan b"
  by (cases a; cases b) simp_all

lemma std_max_props:
  assumes "\<not> isnan m"
  shows "\<not> isnan (std_max m x)" "\<not> std_max m x < x" "\<not> m < y \<Longrightarrow> \<not> std_max m x < y"
    "std_max m x = m \<or> std_max m x = x"
  using assms less_not_nan [of m x] dbl_less_trans [of m x y] dbl_less_asym [of x x]
  by (auto simp: std_max_def)

lemma run_max_props:
  assumes "\<not> isnan m"
  shows "\<not> isnan (run_max d ns m) \<and>
    (\<forall>y. \<not> m < y \<longrightarrow> \<not> run_max d ns m < y) \<and>
    (\<forall>n \<in> set ns. \<not> is_inside_beam (fst n) (snd n) \<longrightarrow> \<not> run_max d ns m < d n) \<and>
    (run_max d ns m = m \<or>
     (\<exists>n \<in> set ns. \<not> is_inside_beam (fst n) (snd n) \<and> run_max d ns m = d n))"
  using assms
proof (induction ns arbitrary: m)
  case Nil
  then show ?case by (simp add: run_max_def)
next
  case (Cons n ns)
  show ?case
  proof (cases "is_inside_beam (fst n) (snd n)")
    case True
    then have "run_max d (n # ns) m = run_max d ns m" by (simp add: run_max_def)
    with Cons.IH [OF Cons.prems] True show ?thesis by auto
  next
    case False
    let ?m = "std_max m (d n)"
    have eq: "run_max d (n # ns) m = run_max d ns ?m" using False by (simp add: run_max_def)
    note p = std_max_props [OF Cons.prems, where x = "d n"]
    note ih = Cons.IH [OF p(1)]
    show ?thesis
      unfolding eq using ih p False by auto
  qed
qed


lemma state_eqI: "u a = u b \<Longrightarrow> w a = w b \<Longrightarrow> same_scalars a b \<Longrightarrow> a = (b::state)"
  by (rule state.equality) (simp_all add: same_scalars_def)

lemma set_interior_nodes:
  "(i, j) \<in> set interior_nodes \<longleftrightarrow> 1 \<le> i \<and> i < Nxmax \<and> 1 \<le> j \<and> j < Nymax"
  by (auto simp: interior_nodes_def)

lemma still_fields:
  "u still = (\<lambda>n. 0)" "w still = (\<lambda>n. 0)" "omega still = lit (1 / 10)" "R_target still = lit (1 / 2)"
  "R still = 0"
  by (simp_all add: still_def configure_reynolds_def init_state_def Let_def b64)

lemma zero_wall_value: "- lit 2 * 0 / (h * h) = 0"
  by (simp add: h_def b64)

lemma beam_boundaries_stirred: "beam_boundaries stirred = still"
proof -
  have r: "\<not> lit 5 \<le> R_target stirred" by (simp add: stirred_def still_fields b64)
  have c: "corner_left_value stirred = 0" "corner_right_value stirred = 0"
    using r by (simp_all add: corner_left_value_def corner_right_value_def stirred_def still_fields
        zero_wall_value) (simp_all add: b64)
  have "beam_walls stirred = still"
  proof (rule state_eqI)
    show "u (beam_walls stirred) = u still"
      by (simp add: fun_eq_iff beam_walls_u stirred_def still_fields)
    show "w (beam_walls stirred) = w still"
      by (simp add: fun_eq_iff beam_walls_w c zero_wall_value still_fields)
         (simp add: stirred_def still_fields zero_wall_value IL_def H_def)
    have "same_scalars stirred (beam_walls stirred)"
      using same_scalars_beam_boundaries [of stirred] r by (simp add: beam_boundaries_low)
    then show "same_scalars (beam_walls stirred) still"
      by (simp add: same_scalars_def stirred_def)
  qed
  with r show ?thesis by (simp add: beam_boundaries_low)
qed


lemma walls_fixed_still: "walls_fixed still"
  by (simp add: walls_fixed_def still_fields corner_left_value_def corner_right_value_def
      zero_wall_value) (simp add: b64)

lemma beam_boundaries_still: "beam_boundaries still = still"
proof -
  have "\<not> lit 5 \<le> R_target still" by (simp add: still_fields b64)
  then show ?thesis by (simp add: beam_boundaries_low fixed_walls walls_fixed_still)
qed

lemma stream_node_still: "relax_stream_function_node i j still = still"
proof (rule state_eqI)
  show "u (relax_stream_function_node i j still) = u still"
    by (simp add: relax_stream_function_node_def Let_def still_fields h_def fun_eq_iff)
       (simp add: b64)
  show "w (relax_stream_function_node i j still) = w still"
    by (simp add: relax_stream_function_node_def Let_def)
  show "same_scalars (relax_stream_function_node i j still) still"
    by (simp add: relax_stream_function_node_def Let_def same_scalars_def)
qed

lemma vorticity_node_still: "relax_vorticity_node i j still = still"
proof (rule state_eqI)
  show "w (relax_vorticity_node i j still) = w still"
    by (simp add: relax_vorticity_node_def Let_def still_fields stability_factor_def fun_eq_iff)
       (simp add: b64)
  show "u (relax_vorticity_node i j still) = u still"
    by (simp add: relax_vorticity_node_def Let_def)
  show "same_scalars (relax_vorticity_node i j still) still"
    by (simp add: relax_vorticity_node_def Let_def same_scalars_def)
qed

lemma fold_fixed: "(\<And>x. f x a = a) \<Longrightarrow> fold f xs a = a"
  by (induction xs) simp_all

lemma sweeps_still: "relax_stream_function still = still" "relax_vorticity still = still"
  by (simp_all add: relax_stream_function_def relax_vorticity_def fold_fixed stream_node_still
      vorticity_node_still)

lemma run_max_zero: "(\<And>n. d n = 0) \<Longrightarrow> run_max d ns 0 = 0"
  unfolding run_max_def by (rule fold_fixed) (simp add: std_max_def zero_dbl_def)

lemma zero_diff: "\<bar>(0::dbl) - 0\<bar> = 0"
  by (simp add: b64)

lemma run_max_not_nan: "\<not> isnan m \<Longrightarrow> \<not> isnan (run_max d ns m)"
  using run_max_props [of m d ns] by simp

lemma run_max_ge:
  "\<not> isnan m \<Longrightarrow> n \<in> set ns \<Longrightarrow> \<not> is_inside_beam (fst n) (snd n) \<Longrightarrow> \<not> run_max d ns m < d n"
  using run_max_props [of m d ns] by simp

lemma run_max_attained:
  "\<not> isnan m \<Longrightarrow> run_max d ns m = m \<or>
     (\<exists>n \<in> set ns. \<not> is_inside_beam (fst n) (snd n) \<and> run_max d ns m = d n)"
  using run_max_props [of m d ns] by simp

lemma iteration_stirred: "iteration stirred = (still, \<lambda>n. 0, \<lambda>n. 0, 0, 0)"
  by (simp add: iteration_def beam_boundaries_stirred beam_boundaries_still sweeps_still
      max_diffs_eq still_fields run_max_zero zero_diff Let_def)

lemma run_max_single:
  assumes "n0 \<in> set ns" "\<not> is_inside_beam (fst n0) (snd n0)" "d n0 = Fin x" "0 < x"
    and "\<And>n. n \<noteq> n0 \<Longrightarrow> d n = 0"
  shows "run_max d ns 0 = Fin x"
proof -
  let ?r = "run_max d ns 0"
  have z: "\<not> isnan (0::dbl)" by (simp add: zero_dbl_def)
  have 1: "\<not> ?r < Fin x"
    using run_max_ge [OF z assms(1,2), of d] assms(3) by simp
  have "?r = 0 \<or> (\<exists>n \<in> set ns. \<not> is_inside_beam (fst n) (snd n) \<and> ?r = d n)"
    using z by (rule run_max_attained)
  then have "?r = Fin 0 \<or> ?r = Fin x"
    using assms(3,5) unfolding zero_dbl_def by metis
  with 1 assms(4) show ?thesis by auto
qed

lemma max_diffs_stirred: "max_diffs (u stirred) (w stirred) still = (0, Fin 1)"
proof -
  have "run_max (\<lambda>n. \<bar>u still n - u stirred n\<bar>) interior_nodes 0 = 0"
    by (rule run_max_zero) (simp add: stirred_def still_fields zero_diff)
  moreover have "run_max (\<lambda>n. \<bar>w still n - w stirred n\<bar>) interior_nodes 0 = Fin 1"
  proof (rule run_max_single [where ?n0.0 = "(9, 1)"])
    show "(9, 1) \<in> set interior_nodes" "\<not> is_inside_beam (fst (9, 1)) (snd (9, 1))"
      by (simp_all add: set_interior_nodes inside_iff Nxmax_def Nymax_def)
    show "\<bar>w still (9, 1) - w stirred (9, 1)\<bar> = Fin 1" "(0::real) < 1"
      by (simp_all add: stirred_def still_fields b64)
    show "\<bar>w still n - w stirred n\<bar> = 0" if "n \<noteq> (9, 1)" for n
      using that by (simp add: stirred_def still_fields zero_diff)
  qed
  ultimately show ?thesis by (simp add: max_diffs_eq)
qed

lemma spec_iteration_stirred:
  "spec_iteration stirred = (still, u stirred, w stirred, 0, Fin 1)"
  by (simp add: spec_iteration_def beam_boundaries_stirred beam_boundaries_still sweeps_still
      max_diffs_stirred Let_def)


lemma iteration_facts:
  "case iteration s of (t, u_old, w_old, max_diff_u, max_diff_w) \<Rightarrow>
     u_old = u (beam_boundaries s) \<and> w_old = w (beam_boundaries s) \<and>
     t = beam_boundaries (relax_vorticity (relax_stream_function (beam_boundaries s))) \<and>
     \<not> isnan max_diff_u \<and> \<not> isnan max_diff_w \<and>
     (\<forall>i j. 1 \<le> i \<and> i < Nxmax \<and> 1 \<le> j \<and> j < Nymax \<and> \<not> is_inside_beam i j \<longrightarrow>
        \<not> max_diff_u < \<bar>u t (i, j) - u_old (i, j)\<bar> \<and>
        \<not> max_diff_w < \<bar>w t (i, j) - w_old (i, j)\<bar>) \<and>
     (max_diff_u = 0 \<or>
      (\<exists>i j. 1 \<le> i \<and> i < Nxmax \<and> 1 \<le> j \<and> j < Nymax \<and> \<not> is_inside_beam i j \<and>
         max_diff_u = \<bar>u t (i, j) - u_old (i, j)\<bar>)) \<and>
     (max_diff_w = 0 \<or>
      (\<exists>i j. 1 \<le> i \<and> i < Nxmax \<and> 1 \<le> j \<and> j < Nymax \<and> \<not> is_inside_beam i j \<and>
         max_diff_w = \<bar>w t (i, j) - w_old (i, j)\<bar>))"
proof -
  define s1 where "s1 = beam_boundaries s"
  define t where "t = beam_boundaries (relax_vorticity (relax_stream_function s1))"
  define du where "du = (\<lambda>n. \<bar>u t n - u s1 n\<bar>)"
  define dw where "dw = (\<lambda>n. \<bar>w t n - w s1 n\<bar>)"
  define mu where "mu = run_max du interior_nodes 0"
  define mw where "mw = run_max dw interior_nodes 0"
  have it: "iteration s = (t, u s1, w s1, mu, mw)"
    by (simp add: iteration_def Let_def s1_def t_def max_diffs_eq mu_def mw_def du_def dw_def)
  have z: "\<not> isnan (0::dbl)" by (simp add: zero_dbl_def)
  have nan: "\<not> isnan mu" "\<not> isnan mw"
    unfolding mu_def mw_def using z by (rule run_max_not_nan)+
  have ge: "\<not> mu < du (i, j) \<and> \<not> mw < dw (i, j)"
    if "1 \<le> i \<and> i < Nxmax \<and> 1 \<le> j \<and> j < Nymax \<and> \<not> is_inside_beam i j" for i j
  proof -
    from that have "(i, j) \<in> set interior_nodes" "\<not> is_inside_beam (fst (i, j)) (snd (i, j))"
      by (simp_all add: set_interior_nodes)
    then show ?thesis unfolding mu_def mw_def using z run_max_ge by blast
  qed
  have att: "m = 0 \<or> (\<exists>i j. 1 \<le> i \<and> i < Nxmax \<and> 1 \<le> j \<and> j < Nymax \<and> \<not> is_inside_beam i j \<and>
         m = d (i, j))" if "m = run_max d interior_nodes 0" for m d
  proof -
    from run_max_attained [OF z, of d interior_nodes]
    consider "run_max d interior_nodes 0 = 0"
      | n where "n \<in> set interior_nodes" "\<not> is_inside_beam (fst n) (snd n)"
          "run_max d interior_nodes 0 = d n"
      by blast
    then show ?thesis
    proof cases
      case 1
      with that show ?thesis by simp
    next
      case 2
      obtain i j where n: "n = (i, j)" by (cases n)
      with 2 that have "1 \<le> i \<and> i < Nxmax \<and> 1 \<le> j \<and> j < Nymax \<and> \<not> is_inside_beam i j \<and> m = d (i, j)"
        by (simp add: set_interior_nodes)
      then show ?thesis by blast
    qed
  qed
  show ?thesis
    unfolding it prod.case
    using nan ge att [OF mu_def] att [OF mw_def]
    by (simp add: s1_def t_def du_def dw_def)
qed

text \<open>
  C2, as the code has it: each pass first applies \<^verbatim>\<open>beam_boundaries\<close>, then copies both
  fields, then runs the streamfunction sweep and the vorticity sweep, applies
  \<^verbatim>\<open>beam_boundaries\<close> again, and returns for each field the running maximum, from 0, of
  the absolute change against the copy over the nodes \<open>1 <= i < Nxmax\<close>,
  \<open>1 <= j < Nymax\<close> outside the obstacle: a value that is not NaN, that no such change
  exceeds, and that is 0 or one of these changes.
\<close>

theorem iteration_order:
  "case iteration s of (t, u_old, w_old, max_diff_u, max_diff_w) \<Rightarrow>
     u_old = u (beam_boundaries s) \<and> w_old = w (beam_boundaries s) \<and>
     t = beam_boundaries (relax_vorticity (relax_stream_function (beam_boundaries s))) \<and>
     \<not> isnan max_diff_u \<and> \<not> isnan max_diff_w \<and>
     (\<forall>i j. 1 \<le> i \<and> i < Nxmax \<and> 1 \<le> j \<and> j < Nymax \<and> \<not> is_inside_beam i j \<longrightarrow>
        \<not> max_diff_u < \<bar>u t (i, j) - u_old (i, j)\<bar> \<and>
        \<not> max_diff_w < \<bar>w t (i, j) - w_old (i, j)\<bar>) \<and>
     (max_diff_u = 0 \<or>
      (\<exists>i j. 1 \<le> i \<and> i < Nxmax \<and> 1 \<le> j \<and> j < Nymax \<and> \<not> is_inside_beam i j \<and>
         max_diff_u = \<bar>u t (i, j) - u_old (i, j)\<bar>)) \<and>
     (max_diff_w = 0 \<or>
      (\<exists>i j. 1 \<le> i \<and> i < Nxmax \<and> 1 \<le> j \<and> j < Nymax \<and> \<not> is_inside_beam i j \<and>
         max_diff_w = \<bar>w t (i, j) - w_old (i, j)\<bar>))"
  by (rule iteration_facts)

theorem iteration_order_witness:
  "(1::int) \<le> 9 \<and> 9 < Nxmax \<and> (1::int) \<le> 1 \<and> 1 < Nymax \<and> \<not> is_inside_beam 9 1 \<and>
   iteration stirred = (still, \<lambda>n. 0, \<lambda>n. 0, 0, 0) \<and>
   (\<lambda>n. 0) = w (beam_boundaries stirred) \<and>
   \<not> (0::dbl) < \<bar>w still (9, 1) - 0\<bar>"
proof -
  have a: "(1::int) \<le> 9 \<and> 9 < Nxmax \<and> (1::int) \<le> 1 \<and> 1 < Nymax \<and> \<not> is_inside_beam 9 1"
    by (simp add: Nxmax_def Nymax_def inside_iff)
  note th = iteration_order [of stirred, unfolded iteration_stirred prod.case]
  from th have b: "(\<lambda>n. 0) = w (beam_boundaries stirred)" by blast
  from th a have c: "\<not> (0::dbl) < \<bar>w still (9, 1) - 0\<bar>" by blast
  from a b c show ?thesis by (simp only: iteration_stirred simp_thms)
qed

text \<open>
  The snapshot is not taken first. On the first pass of the run at Reynolds number 0.5 the
  copy of \<open>w\<close> holds the wall vorticity \<open>-2\<close> at node \<open>(9, 1)\<close>, where the field was 0
  when the pass began. And from a state whose only non-zero value is \<open>w = 1\<close> at that wall
  node the code returns the norms \<open>(0, 0)\<close>, where a snapshot taken first gives
  \<open>(0, 1)\<close>.
\<close>

theorem iteration_not_snapshot_first:
  "(case iteration (first_state (lit (1 / 2))) of
      (t, u_old, w_old, max_diff_u, max_diff_w) \<Rightarrow> w_old (9, 1) = Fin (- 2)) \<and>
   w (first_state (lit (1 / 2))) (9, 1) = 0 \<and>
   iteration (first_state (lit (1 / 2))) \<noteq> spec_iteration (first_state (lit (1 / 2))) \<and>
   (case iteration stirred of (t, u_old, w_old, max_diff_u, max_diff_w) \<Rightarrow>
      (max_diff_u, max_diff_w) = (0, 0)) \<and>
   (case spec_iteration stirred of (t, u_old, w_old, max_diff_u, max_diff_w) \<Rightarrow>
      (max_diff_u, max_diff_w) = (0, Fin 1)) \<and>
   iteration stirred \<noteq> spec_iteration stirred"
proof -
  let ?s = "first_state (lit (1 / 2))"
  have r: "\<not> lit 5 \<le> R_target ?s" by (simp add: first_state_R_target b64)
  have u8: "u ?s (IL - 2, 1) = Fin 1"
    using first_state_u [of "IL - 2" 1 "lit (1 / 2)"]
    by (simp add: IL_def Nxmax_def Nymax_def inside_iff)
  have "w (beam_boundaries ?s) (IL - 1, 1) = - lit 2 * u ?s (IL - 2, 1) / (h * h)"
    using r by (simp add: beam_boundaries_low beam_walls_w_front H_def)
  then have old: "w (beam_boundaries ?s) (9, 1) = Fin (- 2)"
    unfolding u8 by (simp add: IL_def h_def b64)
  have new: "w ?s (9, 1) = 0"
    using first_state_w [of 9 1 "lit (1 / 2)"] by (simp add: Nxmax_def Nymax_def)
  have 1: "case iteration ?s of (t, u_old, w_old, max_diff_u, max_diff_w) \<Rightarrow> w_old (9, 1) = Fin (- 2)"
    by (simp add: iteration_def Let_def old split: prod.splits)
  have 2: "case spec_iteration ?s of (t, u_old, w_old, max_diff_u, max_diff_w) \<Rightarrow> w_old (9, 1) = 0"
    by (simp add: spec_iteration_def Let_def new split: prod.splits)
  have 3: "iteration ?s \<noteq> spec_iteration ?s"
  proof
    assume "iteration ?s = spec_iteration ?s"
    with 1 2 have "Fin (- 2) = (0::dbl)" by (auto split: prod.splits)
    then show False by (simp add: zero_dbl_def)
  qed
  have 4: "iteration stirred \<noteq> spec_iteration stirred"
    by (simp add: iteration_stirred spec_iteration_stirred zero_dbl_def)
  show ?thesis
    using 1 new 3 4 by (simp add: iteration_stirred spec_iteration_stirred)
qed


section \<open>Properties of the convergence loop and the run harness\<close>


lemma relax_loop_pass:
  "relax_loop max_iterations iter s =
     (case pass max_iterations iter s of Inl r \<Rightarrow> r | Inr (iter', s') \<Rightarrow> relax_loop max_iterations iter' s')"
  by (subst relax_loop.simps) (simp add: pass_def Let_def split: prod.splits)



lemma same_config_pass:
  "pass max_iterations iter s = Inl (b, n, t) \<Longrightarrow> same_config s t"
  "pass max_iterations iter s = Inr (n, t) \<Longrightarrow> same_config s t"
  using same_scalars_iteration [of s]
  by (auto simp: pass_def Let_def same_config_def same_scalars_def after_loop_def
      partial_convergence_def split: prod.splits if_splits)


lemma pass_continues:
  "pass max_iterations iter s = Inr (n, t) \<Longrightarrow> n = iter + 1 \<and> n < max_iterations"
  by (auto simp: pass_def Let_def split: prod.splits if_splits)

lemma same_config_relax_loop: "same_config s (snd (snd (relax_loop max_iterations iter s)))"
proof (induction "nat (max_iterations - iter)" arbitrary: iter s rule: less_induct)
  case less
  show ?case
  proof (cases "pass max_iterations iter s")
    case (Inl r)
    obtain b n t where r: "r = (b, n, t)" by (cases r)
    with Inl have "relax_loop max_iterations iter s = (b, n, t)"
      by (subst relax_loop_pass) simp
    with same_config_pass(1) [of max_iterations iter s b n t] Inl r show ?thesis by simp
  next
    case (Inr c)
    obtain n t where c: "c = (n, t)" by (cases c)
    with Inr pass_continues [of max_iterations iter s n t]
    have n: "n = iter + 1" "n < max_iterations" by simp_all
    then have "nat (max_iterations - n) < nat (max_iterations - iter)" by linarith
    then have ih: "same_config t (snd (snd (relax_loop max_iterations n t)))" by (rule less)
    have "relax_loop max_iterations iter s = relax_loop max_iterations n t"
      using Inr c by (subst relax_loop_pass) simp
    with ih same_config_pass(2) [of max_iterations iter s n t] Inr c show ?thesis
      by (simp add: same_config_def)
  qed
qed

lemma relax_until_converge_fields:
  "R (snd (snd (relax_until_converge max_iterations s))) = V0 * h / nu s"
  "nu (snd (snd (relax_until_converge max_iterations s))) = nu s"
  "omega (snd (snd (relax_until_converge max_iterations s))) = omega s"
  "R_target (snd (snd (relax_until_converge max_iterations s))) = R_target s"
  "exported (snd (snd (relax_until_converge max_iterations s))) = exported s"
  using same_config_relax_loop [of "s\<lparr>R := V0 * h / nu s\<rparr>" max_iterations 0]
  by (simp_all add: relax_until_converge_def same_config_def)

















lemma run_entry_statics:
  "stagnant_count (borders (configure_reynolds re (reset_fields s))) = stagnant_count s"
  "last_w_error (borders (configure_reynolds re (reset_fields s))) = last_w_error s"
  "R_target (borders (configure_reynolds re (reset_fields s))) = re"
  using same_scalars_borders [of "configure_reynolds re (reset_fields s)"]
    same_scalars_reset_fields [of s]
  by (simp_all add: same_scalars_def configure_reynolds_fields)




lemma configure_reynolds_eq:
  "configure_reynolds re s = s\<lparr>R_target := re, nu := V0 * h / re, omega := omega_of re\<rparr>"
  by (simp add: configure_reynolds_def omega_of_def Let_def)

lemma omega_table:
  "(re \<le> lit (1 / 2) \<longrightarrow> omega_of re = lit (1 / 10)) \<and>
   (lit (1 / 2) < re \<and> re \<le> lit 1 \<longrightarrow> omega_of re = lit (8 / 100)) \<and>
   (lit 1 < re \<and> re \<le> lit 2 \<longrightarrow> omega_of re = lit (4 / 100)) \<and>
   (lit 2 < re \<and> re \<le> lit 5 \<longrightarrow> omega_of re = lit (12 / 1000)) \<and>
   (lit 5 < re \<and> re \<le> lit 10 \<longrightarrow> omega_of re = lit (8 / 1000)) \<and>
   (lit 10 < re \<longrightarrow> omega_of re = lit (5 / 1000))"
  by (cases re) (simp_all add: omega_of_def omega_values lit_values)

lemma omega_mono: "re \<le> re' \<Longrightarrow> omega_of re' \<le> omega_of re"
  by (cases re; cases re') (simp_all add: omega_of_def omega_values lit_values)

lemma mesh_reynolds_configured:
  "re \<in> set reynolds_values \<Longrightarrow> V0 * h / (V0 * h / re) = re"
  by (auto simp: reynolds_values_def omega_values lit_values b64)

lemma mesh_reynolds_49: "V0 * h / (V0 * h / lit 49) = Fin (6896136929411073 / 2 ^ 47)"
  by (simp add: b64)


lemma nu_borders: "nu (borders s) = nu s"
  using same_scalars_borders [of s] by (simp add: same_scalars_def)

text \<open>
  C8: \<^verbatim>\<open>configure_reynolds\<close> changes \<open>R_target\<close>, \<open>nu\<close> and \<open>omega\<close> only, to values that
  depend on its argument alone: \<open>nu = V0 * h / Re\<close> and \<open>omega\<close> from the step table,
  which never grows with \<open>Re\<close>. The loop then sets \<open>R = V0 * h / nu\<close>, and for each of the
  configured targets 0.5, 1.0, 2.0 and 5.0 this is the target itself.
\<close>

theorem configure_reynolds_mapping:
  fixes re re' :: dbl and s s' :: state
  shows
    "configure_reynolds re s =
       s\<lparr>R_target := re, nu := V0 * h / re, omega := omega (configure_reynolds re s)\<rparr> \<and>
     (re \<le> lit (1 / 2) \<longrightarrow> omega (configure_reynolds re s) = lit (1 / 10)) \<and>
     (lit (1 / 2) < re \<and> re \<le> lit 1 \<longrightarrow> omega (configure_reynolds re s) = lit (8 / 100)) \<and>
     (lit 1 < re \<and> re \<le> lit 2 \<longrightarrow> omega (configure_reynolds re s) = lit (4 / 100)) \<and>
     (lit 2 < re \<and> re \<le> lit 5 \<longrightarrow> omega (configure_reynolds re s) = lit (12 / 1000)) \<and>
     (lit 5 < re \<and> re \<le> lit 10 \<longrightarrow> omega (configure_reynolds re s) = lit (8 / 1000)) \<and>
     (lit 10 < re \<longrightarrow> omega (configure_reynolds re s) = lit (5 / 1000)) \<and>
     (re \<le> re' \<longrightarrow> omega (configure_reynolds re' s') \<le> omega (configure_reynolds re s)) \<and>
     nu (configure_reynolds re s') = nu (configure_reynolds re s) \<and>
     omega (configure_reynolds re s') = omega (configure_reynolds re s) \<and>
     configure_reynolds re (configure_reynolds re' s) = configure_reynolds re s \<and>
     R (snd (snd (relax_until_converge max_iterations (borders (configure_reynolds re s)))))
       = V0 * h / nu (configure_reynolds re s) \<and>
     (re \<in> set reynolds_values \<longrightarrow>
        R (snd (snd (relax_until_converge max_iterations (borders (configure_reynolds re s)))))
          = re)"
proof -
  have r: "R (snd (snd (relax_until_converge max_iterations (borders (configure_reynolds re s)))))
       = V0 * h / (V0 * h / re)"
    by (simp add: relax_until_converge_fields nu_borders configure_reynolds_eq)
  show ?thesis
    unfolding r
    using omega_table [of re] omega_mono [of re re'] mesh_reynolds_configured [of re]
    by (simp add: configure_reynolds_eq)
qed

theorem configure_reynolds_mapping_witness:
  "lit 5 \<in> set reynolds_values \<and> lit 2 < lit 5 \<and> lit 5 \<le> lit 5 \<and> lit 2 \<le> lit 5 \<and>
   omega (configure_reynolds (lit 5) init_state) = lit (12 / 1000) \<and>
   omega (configure_reynolds (lit 5) init_state) \<le> omega (configure_reynolds (lit 2) init_state) \<and>
   R (snd (snd (relax_until_converge 350000 (borders (configure_reynolds (lit 5) init_state)))))
     = lit 5"
proof -
  have a: "lit 5 \<in> set reynolds_values" by (simp add: reynolds_values_def)
  have b: "lit 2 < lit 5" "lit 5 \<le> lit 5" "lit 2 \<le> lit 5" by (simp_all add: lit_values)
  note th1 = configure_reynolds_mapping [of "lit 5" init_state "lit 5" init_state 350000]
  note th2 = configure_reynolds_mapping [of "lit 2" init_state "lit 5" init_state 350000]
  from th1 a b have c: "omega (configure_reynolds (lit 5) init_state) = lit (12 / 1000)"
     "R (snd (snd (relax_until_converge 350000 (borders (configure_reynolds (lit 5) init_state)))))
     = lit 5" by blast+
  have d:
    "omega (configure_reynolds (lit 5) init_state) \<le> omega (configure_reynolds (lit 2) init_state)"
    using b(3) th2 [THEN conjunct2, THEN conjunct2, THEN conjunct2, THEN conjunct2, THEN conjunct2,
      THEN conjunct2, THEN conjunct2, THEN conjunct1]
    by (rule rev_mp)
  from a b c d show ?thesis by blast
qed

text \<open>
  For the target 49.0 the two rounded divisions give \<open>R = 49.00000000000001\<close>.
\<close>

theorem mesh_reynolds_not_exact:
  "R_target (borders (configure_reynolds (lit 49) (reset_fields init_state))) = Fin 49 \<and>
   R (snd (snd (relax_until_converge 350000
        (borders (configure_reynolds (lit 49) (reset_fields init_state))))))
     = Fin (6896136929411073 / 2 ^ 47) \<and>
   Fin (6896136929411073 / 2 ^ 47) \<noteq> Fin 49"
proof -
  let ?s = "borders (configure_reynolds (lit 49) (reset_fields init_state))"
  have 1: "nu ?s = V0 * h / lit 49"
    by (simp add: nu_borders configure_reynolds_eq)
  have 2: "R (snd (snd (relax_until_converge 350000 ?s))) = Fin (6896136929411073 / 2 ^ 47)"
    unfolding relax_until_converge_fields(1) 1 by (rule mesh_reynolds_49)
  have 3: "R_target ?s = Fin 49"
    by (simp add: run_entry_statics lit_def)
  from 2 3 show ?thesis by simp
qed


end
